theory Spec2Isabelle
  imports Complex_Main "HOL-Library.Sublist"
begin

section \<open>GeoScraper: the Wikimapia crawler\<close>

text \<open>
  A shallow embedding of \<^verbatim>\<open>src/wikimapia_scraper.py\<close> and \<^verbatim>\<open>src/utils.py\<close>.
  Python strings are \<^typ>\<open>string\<close>; exceptions are values of \<open>exn\<close>, and a call that may
  raise returns \<open>library_error + 'a\<close> (or \<open>exn + 'a\<close>) with \<open>Inl\<close> for the exception.
\<close>

subsection \<open>Exceptions\<close>

text \<open>
  The subclasses of Python's \<^verbatim>\<open>Exception\<close> that the program can meet. Those of
  \<open>library_error\<close> are raised by built-in and library operations (\<open>RequestError\<close>
  stands for whatever \<^verbatim>\<open>requests.get\<close> and the HTML parser raise);
  \<^verbatim>\<open>NotFoundError\<close> is the program's own class, raised in one place only.
\<close>

datatype library_error = KeyError | ValueError | TypeError | RequestError string

datatype exn = NotFoundError | Library library_error

subsection \<open>The frontier queue: \<^verbatim>\<open>SetAsyncioQueue\<close>\<close>

text \<open>
  \<^verbatim>\<open>asyncio.Queue\<close> created with the default \<^verbatim>\<open>maxsize=0\<close> is an unbounded FIFO: a deque
  of items (\<open>items\<close>) and the counter \<open>unfinished_tasks\<close> that \<^verbatim>\<open>put\<close> increments,
  \<^verbatim>\<open>task_done\<close> decrements and \<^verbatim>\<open>join\<close> waits on. The subclass adds \<open>set_data\<close>.
\<close>

record SetAsyncioQueue =
  items :: "string list"
  unfinished_tasks :: nat
  set_data :: "string set"

definition empty_queue :: SetAsyncioQueue where
  "empty_queue = \<lparr>items = [], unfinished_tasks = 0, set_data = {}\<rparr>"

text \<open>
  \<^verbatim>\<open>put\<close>: \<^verbatim>\<open>self.set_data.add(item)\<close>, then \<^verbatim>\<open>super().put(item)\<close>, which on an
  unbounded queue appends at once and never suspends.
\<close>

definition put :: "SetAsyncioQueue \<Rightarrow> string \<Rightarrow> SetAsyncioQueue" where
  "put q item =
     q\<lparr>set_data := insert item (set_data q),
       items := items q @ [item],
       unfinished_tasks := Suc (unfinished_tasks q)\<rparr>"

text \<open>
  \<^verbatim>\<open>get\<close>: \<^verbatim>\<open>super().get()\<close> suspends the caller while the queue is empty
  (\<open>Blocks\<close>), otherwise pops the leftmost item; then \<^verbatim>\<open>self.set_data.remove(item)\<close>
  raises \<^verbatim>\<open>KeyError\<close> when the item is not in the set, after the item has left the deque.
\<close>

datatype 'a outcome = Blocks | Raises library_error | Returns 'a

definition get :: "SetAsyncioQueue \<Rightarrow> string outcome \<times> SetAsyncioQueue" where
  "get q =
     (case items q of
        [] \<Rightarrow> (Blocks, q)
      | item # rest \<Rightarrow>
          (if item \<in> set_data q
           then (Returns item, q\<lparr>items := rest, set_data := set_data q - {item}\<rparr>)
           else (Raises KeyError, q\<lparr>items := rest\<rparr>)))"

text \<open>\<^verbatim>\<open>__contains__\<close>: \<^verbatim>\<open>item in self.set_data\<close>.\<close>

definition contains :: "SetAsyncioQueue \<Rightarrow> string \<Rightarrow> bool" where
  "contains q item \<longleftrightarrow> item \<in> set_data q"

text \<open>
  \<^verbatim>\<open>asyncio.Queue.task_done\<close>: raises \<^verbatim>\<open>ValueError\<close> when called more often than items
  were put, else decrements the counter.
\<close>

definition task_done :: "SetAsyncioQueue \<Rightarrow> library_error + SetAsyncioQueue" where
  "task_done q =
     (if unfinished_tasks q = 0 then Inl ValueError
      else Inr (q\<lparr>unfinished_tasks := unfinished_tasks q - 1\<rparr>))"

text \<open>The outcomes of \<open>n\<close> successive calls of \<^verbatim>\<open>get\<close> by a consumer.\<close>

fun gets :: "nat \<Rightarrow> SetAsyncioQueue \<Rightarrow> string outcome list" where
  "gets 0 q = []"
| "gets (Suc n) q = (case get q of (r, q') \<Rightarrow> r # gets n q')"

subsection \<open>The standard library, as a parameter\<close>

text \<open>
  The program calls \<^verbatim>\<open>urllib.parse\<close>, \<^verbatim>\<open>float\<close>, \<^verbatim>\<open>str.casefold\<close> and
  \<^verbatim>\<open>unicodedata.normalize\<close>. The functions of the program take them as a record \<open>L\<close>,
  so that what is proved for every \<open>L\<close> does not depend on how the library behaves;
  \<open>'f\<close> is the type of Python's floats. A concrete instance, \<open>py\<close>, is defined below
  and used where a property is evaluated at a concrete input.
\<close>

record ParseResult =
  scheme :: string
  netloc :: string
  path :: string
  params :: string
  query :: string
  fragment :: string

record 'f stdlib =
  urlparse :: "string \<Rightarrow> library_error + ParseResult"
  urljoin :: "string \<Rightarrow> string \<Rightarrow> library_error + string"
  parse_qs :: "string \<Rightarrow> library_error + (string \<rightharpoonup> string list)"
  float :: "string \<Rightarrow> library_error + 'f"
  casefold :: "string \<Rightarrow> string"
  normalize_NFKD :: "string \<Rightarrow> string"

subsection \<open>\<^verbatim>\<open>utils.py\<close>\<close>

definition normalize_caseless :: "'f stdlib \<Rightarrow> string \<Rightarrow> string" where
  "normalize_caseless L txt = normalize_NFKD L (casefold L txt)"

definition caseless_equal :: "'f stdlib \<Rightarrow> string \<Rightarrow> string \<Rightarrow> bool" where
  "caseless_equal L left right \<longleftrightarrow> normalize_caseless L left = normalize_caseless L right"

text \<open>
  \<^verbatim>\<open>p_url.path.startswith(p_baseurl.path)\<close> is \<open>prefix (path p_baseurl) (path p_url)\<close>,
  a comparison of characters.
\<close>

definition is_base_url :: "'f stdlib \<Rightarrow> string \<Rightarrow> string \<Rightarrow> library_error + bool" where
  "is_base_url L u baseurl =
     (case urlparse L u of
        Inl e \<Rightarrow> Inl e
      | Inr p_url \<Rightarrow>
          (case urlparse L baseurl of
             Inl e \<Rightarrow> Inl e
           | Inr p_baseurl \<Rightarrow>
               Inr (netloc p_url = netloc p_baseurl \<and> prefix (path p_baseurl) (path p_url))))"

subsection \<open>The data model\<close>

text \<open>
  \<^verbatim>\<open>GeoPoint\<close> is a plain class with no \<^verbatim>\<open>__eq__\<close>: two points are equal in Python
  only when they are the same object. The field \<open>oid\<close> is the identity of the object.
  \<^verbatim>\<open>GeoLocation\<close> is a dataclass: its generated \<^verbatim>\<open>__eq__\<close> compares the tuples
  \<^verbatim>\<open>(url, points, data)\<close>, the lists of points element by element.
\<close>

record 'f GeoPoint =
  oid :: nat
  lon :: 'f
  lat :: 'f

record 'f GeoLocation =
  url :: string
  points :: "'f GeoPoint list"
  data :: "string \<rightharpoonup> string"

definition GeoPoint_eq :: "'f GeoPoint \<Rightarrow> 'f GeoPoint \<Rightarrow> bool" where
  "GeoPoint_eq p q \<longleftrightarrow> oid p = oid q"

definition GeoLocation_eq :: "'f GeoLocation \<Rightarrow> 'f GeoLocation \<Rightarrow> bool" where
  "GeoLocation_eq a b \<longleftrightarrow>
     url a = url b \<and> list_all2 GeoPoint_eq (points a) (points b) \<and> data a = data b"

subsection \<open>A parsed page\<close>

text \<open>
  \<^verbatim>\<open>BeautifulSoup\<close> is outside the program; a parsed page is modelled by the results of
  the four queries that the program makes on it:
  \<^item> \<open>find_all_a_href\<close>: the \<^verbatim>\<open>href\<close> values of \<^verbatim>\<open>soup.find_all('a', href=True)\<close>, in
    document order;
  \<^item> \<open>find_all_li\<close>: for each tag of \<^verbatim>\<open>soup.find_all('li')\<close>, the anchors of
    \<^verbatim>\<open>li_tag.find_all('a')\<close>;
  \<^item> \<open>select_linkslist_a\<close>: the anchors of \<^verbatim>\<open>soup.select(".linkslist a", href=True)\<close>;
  \<^item> \<open>place_description\<close>: the text of \<^verbatim>\<open>soup.find(id='place-description')\<close>, when
    there is such an element.

  An anchor has its \<^verbatim>\<open>.text\<close> (\<open>tag_text\<close>) and its \<^verbatim>\<open>href\<close> attribute, if any: \<^verbatim>\<open>a.get('href')\<close> is
  \<^verbatim>\<open>None\<close> and \<^verbatim>\<open>a['href']\<close> raises \<^verbatim>\<open>KeyError\<close> when it is missing.
\<close>

record anchor =
  tag_text :: string
  href :: "string option"

record BeautifulSoup =
  find_all_a_href :: "string list"
  find_all_li :: "anchor list list"
  select_linkslist_a :: "anchor list"
  place_description :: "string option"

subsection \<open>The link scan\<close>

text \<open>
  \<^verbatim>\<open>get_linked_urls\<close> is a generator. Its result here is the list of the URLs it yields
  and, when \<^verbatim>\<open>urljoin\<close> or \<^verbatim>\<open>is_base_url\<close> raises, the exception that ends it.
\<close>

fun get_linked_urls ::
  "'f stdlib \<Rightarrow> string \<Rightarrow> string list \<Rightarrow> string list \<times> library_error option" where
  "get_linked_urls L u [] = ([], None)"
| "get_linked_urls L u (p # a_tags) =
     (if p \<noteq> [] then
        (case urljoin L u p of
           Inl e \<Rightarrow> ([], Some e)
         | Inr fullurl \<Rightarrow>
             (case is_base_url L fullurl u of
                Inl e \<Rightarrow> ([], Some e)
              | Inr True \<Rightarrow>
                  (case get_linked_urls L u a_tags of (ys, e) \<Rightarrow> (fullurl # ys, e))
              | Inr False \<Rightarrow> get_linked_urls L u a_tags))
      else get_linked_urls L u a_tags)"

subsection \<open>Coordinates of a map link\<close>

text \<open>
  \<^verbatim>\<open>re.sub(r'^.*?lat', '?lat', map_url)\<close>: the pattern is anchored at the start of the
  string, \<^verbatim>\<open>.\<close> matches every character but the newline and \<^verbatim>\<open>*?\<close> is lazy, so the
  match ends at the first \<^verbatim>\<open>lat\<close> with no newline before it. \<open>after_lat\<close> is what
  follows that match, if there is one.
\<close>

fun after_lat :: "string \<Rightarrow> string option" where
  "after_lat [] = None"
| "after_lat (c # cs) =
     (if prefix ''lat'' (c # cs) then Some (drop 3 (c # cs))
      else if c = CHR 0x0A then None
      else after_lat cs)"

definition re_sub_lat :: "string \<Rightarrow> string" where
  "re_sub_lat map_url = (case after_lat map_url of None \<Rightarrow> map_url | Some r \<Rightarrow> ''?lat'' @ r)"

text \<open>
  A value of the flattened dictionary is a string (a list of one item, collapsed) or a
  list. \<^verbatim>\<open>map_url\<close> is \<^verbatim>\<open>a_tags[1].get('href')\<close>, so it may be \<^verbatim>\<open>None\<close>, on which
  \<^verbatim>\<open>re.sub\<close> raises \<^verbatim>\<open>TypeError\<close>.
\<close>

datatype param = Str string | Lst "string list"

definition flatten_param :: "string list \<Rightarrow> param" where
  "flatten_param vs = (if length vs = 1 then Str (hd vs) else Lst vs)"

definition get_params_from_map_url ::
  "'f stdlib \<Rightarrow> string option \<Rightarrow> library_error + (string \<rightharpoonup> param)" where
  "get_params_from_map_url L map_url =
     (case map_url of
        None \<Rightarrow> Inl TypeError
      | Some s \<Rightarrow>
          (case urlparse L (re_sub_lat s) of
             Inl e \<Rightarrow> Inl e
           | Inr parsed \<Rightarrow>
               (case parse_qs L (query parsed) of
                  Inl e \<Rightarrow> Inl e
                | Inr ps \<Rightarrow> Inr (\<lambda>key. map_option flatten_param (ps key)))))"

text \<open>Python's truth value of a string or list, and \<^verbatim>\<open>float(x)\<close> on either.\<close>

fun truthy :: "param \<Rightarrow> bool" where
  "truthy (Str s) \<longleftrightarrow> s \<noteq> []"
| "truthy (Lst vs) \<longleftrightarrow> vs \<noteq> []"

fun float_of_param :: "'f stdlib \<Rightarrow> param \<Rightarrow> library_error + 'f" where
  "float_of_param L (Str s) = float L s"
| "float_of_param L (Lst vs) = Inl TypeError"

text \<open>
  \<^verbatim>\<open>get_point_from_map_url\<close>: every exception is caught and gives \<^verbatim>\<open>None\<close>. The new
  \<^verbatim>\<open>GeoPoint\<close> object gets the identity \<open>n\<close>.
\<close>

definition get_point_from_map_url ::
  "'f stdlib \<Rightarrow> nat \<Rightarrow> string option \<Rightarrow> 'f GeoPoint option" where
  "get_point_from_map_url L n map_url =
     (case get_params_from_map_url L map_url of
        Inl e \<Rightarrow> None
      | Inr map_params \<Rightarrow>
          (case (map_params ''lat'', map_params ''lon'') of
             (Some lat_value_str, Some lon_value_str) \<Rightarrow>
               (if truthy lat_value_str \<and> truthy lon_value_str then
                  (case float_of_param L lat_value_str of
                     Inl e \<Rightarrow> None
                   | Inr la \<Rightarrow>
                       (case float_of_param L lon_value_str of
                          Inl e \<Rightarrow> None
                        | Inr lo \<Rightarrow> Some \<lparr>oid = n, lon = lo, lat = la\<rparr>))
                else None)
           | _ \<Rightarrow> None))"

subsection \<open>The location scan\<close>

text \<open>
  \<^verbatim>\<open>urljoin(url, a_tags[0].get('href'))\<close>: for a missing \<^verbatim>\<open>href\<close> the second argument is
  \<^verbatim>\<open>None\<close> and \<^verbatim>\<open>urljoin\<close> returns its base (for the empty base Python returns
  \<^verbatim>\<open>None\<close> itself; a page URL is never empty).
\<close>

definition urljoin_href :: "'f stdlib \<Rightarrow> string \<Rightarrow> string option \<Rightarrow> library_error + string" where
  "urljoin_href L base h = (case h of None \<Rightarrow> Inr base | Some r \<Rightarrow> urljoin L base r)"

text \<open>
  \<^verbatim>\<open>get_geo_locations\<close> is a generator as well: the locations it yields, the exception
  that ends it if \<^verbatim>\<open>urljoin\<close> raises, and the next free object identity (\<open>n\<close> is the
  first one free at the start).
\<close>

fun get_geo_locations ::
  "'f stdlib \<Rightarrow> string \<Rightarrow> anchor list list \<Rightarrow> nat
     \<Rightarrow> 'f GeoLocation list \<times> library_error option \<times> nat" where
  "get_geo_locations L u [] n = ([], None, n)"
| "get_geo_locations L u (a_tags # li_tags) n =
     (if length a_tags = 2 \<and> tag_text (a_tags ! 1) = ''map'' then
        (case urljoin_href L u (href (a_tags ! 0)) of
           Inl e \<Rightarrow> ([], Some e, n)
         | Inr location_fullurl \<Rightarrow>
             (case get_point_from_map_url L n (href (a_tags ! 1)) of
                None \<Rightarrow> get_geo_locations L u li_tags n
              | Some map_point \<Rightarrow>
                  (case get_geo_locations L u li_tags (Suc n) of
                     (ys, e, n') \<Rightarrow>
                       (\<lparr>url = location_fullurl, points = [map_point],
                         data = [''name'' \<mapsto> tag_text (a_tags ! 0)]\<rparr> # ys, e, n'))))
      else get_geo_locations L u li_tags n)"

subsection \<open>The crawler\<close>

text \<open>
  The fields of \<^verbatim>\<open>WikimapiaCrawler\<close>, and two that make effects explicit:
  \<open>requested\<close> lists the URLs handed to \<^verbatim>\<open>requests.get\<close> by \<^verbatim>\<open>download_html\<close>, in
  order, and \<open>next_oid\<close> is the identity that the next new \<^verbatim>\<open>GeoPoint\<close> object gets.
\<close>

record 'f WikimapiaCrawler =
  start_url :: string
  urls_to_visit :: SetAsyncioQueue
  visited_urls :: "string set"
  geo_locations :: "'f GeoLocation list"
  workers_num :: nat
  requested :: "string list"
  next_oid :: nat

definition new_crawler :: "string \<Rightarrow> nat \<Rightarrow> 'f WikimapiaCrawler" where
  "new_crawler start workers =
     \<lparr>start_url = start, urls_to_visit = empty_queue, visited_urls = {},
      geo_locations = [], workers_num = workers, requested = [], next_oid = 0\<rparr>"

text \<open>
  The site is a function \<open>web\<close> from a URL to what \<^verbatim>\<open>download_html\<close> gives for it: the
  parsed page, or the exception of the request or of the parser.
\<close>

type_synonym site = "string \<Rightarrow> library_error + BeautifulSoup"

definition download_html ::
  "site \<Rightarrow> 'f WikimapiaCrawler \<Rightarrow> string
     \<Rightarrow> (library_error + BeautifulSoup) \<times> 'f WikimapiaCrawler" where
  "download_html web c u = (web u, c\<lparr>requested := requested c @ [u]\<rparr>)"

definition add_url_to_visit :: "'f WikimapiaCrawler \<Rightarrow> string \<Rightarrow> 'f WikimapiaCrawler" where
  "add_url_to_visit c u =
     (if u \<notin> visited_urls c \<and> \<not> contains (urls_to_visit c) u
      then c\<lparr>urls_to_visit := put (urls_to_visit c) u\<rparr>
      else c)"

text \<open>
  \<^verbatim>\<open>geo_location not in self.geo_locations\<close> compares with \<^verbatim>\<open>==\<close>, that is with
  \<open>GeoLocation_eq\<close>; a dataclass instance is always true as a condition.
\<close>

definition add_geo_location ::
  "'f WikimapiaCrawler \<Rightarrow> 'f GeoLocation \<Rightarrow> 'f WikimapiaCrawler" where
  "add_geo_location c geo_location =
     (if points geo_location \<noteq> [] \<and> \<not> list_ex (GeoLocation_eq geo_location) (geo_locations c)
      then c\<lparr>geo_locations := geo_locations c @ [geo_location]\<rparr>
      else c)"

text \<open>
  \<^verbatim>\<open>crawl\<close> after \<^verbatim>\<open>download_html\<close> has returned \<open>res\<close>. The first loop is
  \<^verbatim>\<open>for url in self.get_linked_urls(url, soup)\<close>: its variable is the parameter
  \<^verbatim>\<open>url\<close> itself, so after the loop \<^verbatim>\<open>url\<close> is the last URL yielded, if any, and that
  is what \<^verbatim>\<open>get_geo_locations(url, soup)\<close> receives. The result is the new state and
  the exception that leaves \<^verbatim>\<open>crawl\<close>, if any.
\<close>

definition crawl_page ::
  "'f stdlib \<Rightarrow> 'f WikimapiaCrawler \<Rightarrow> string \<Rightarrow> library_error + BeautifulSoup
     \<Rightarrow> 'f WikimapiaCrawler \<times> library_error option" where
  "crawl_page L c u res =
     (case res of
        Inl e \<Rightarrow> (c, Some e)
      | Inr soup \<Rightarrow>
          (case get_linked_urls L u (find_all_a_href soup) of
             (links, e1) \<Rightarrow>
               (let c1 = foldl add_url_to_visit c links in
                case e1 of
                  Some e \<Rightarrow> (c1, Some e)
                | None \<Rightarrow>
                    (let u' = (if links = [] then u else last links) in
                     case get_geo_locations L u' (find_all_li soup) (next_oid c1) of
                       (locs, e2, n') \<Rightarrow>
                         (foldl add_geo_location (c1\<lparr>next_oid := n'\<rparr>) locs, e2)))))"

definition crawl ::
  "'f stdlib \<Rightarrow> site \<Rightarrow> 'f WikimapiaCrawler \<Rightarrow> string
     \<Rightarrow> 'f WikimapiaCrawler \<times> library_error option" where
  "crawl L web c u = (case download_html web c u of (res, c') \<Rightarrow> crawl_page L c' u res)"

subsection \<open>Finding the start page's link\<close>

text \<open>
  The loop of \<^verbatim>\<open>find_location_in_page\<close> over the anchors of the navigation list:
  \<^verbatim>\<open>a_tag['href']\<close> is read first (\<^verbatim>\<open>KeyError\<close> when missing), and an empty one fails
  the test.
\<close>

fun find_a_tag :: "'f stdlib \<Rightarrow> string \<Rightarrow> string \<Rightarrow> anchor list \<Rightarrow> exn + string \<times> string" where
  "find_a_tag L start search_name [] = Inl NotFoundError"
| "find_a_tag L start search_name (a_tag # a_tags) =
     (case href a_tag of
        None \<Rightarrow> Inl (Library KeyError)
      | Some h \<Rightarrow>
          (if h \<noteq> [] \<and> caseless_equal L (tag_text a_tag) search_name then
             (case urljoin L start h of
                Inl e \<Rightarrow> Inl (Library e)
              | Inr fullurl \<Rightarrow> Inr (tag_text a_tag, fullurl))
           else find_a_tag L start search_name a_tags))"

definition find_location_in_page ::
  "'f stdlib \<Rightarrow> site \<Rightarrow> 'f WikimapiaCrawler \<Rightarrow> string \<Rightarrow> string
     \<Rightarrow> (exn + string \<times> string) \<times> 'f WikimapiaCrawler" where
  "find_location_in_page L web c u search_name =
     (case download_html web c u of
        (Inl e, c') \<Rightarrow> (Inl (Library e), c')
      | (Inr soup, c') \<Rightarrow>
          (find_a_tag L (start_url c') search_name (select_linkslist_a soup), c'))"

subsection \<open>Enrichment and output\<close>

definition can_be_location_page_url :: "'f stdlib \<Rightarrow> string \<Rightarrow> library_error + bool" where
  "can_be_location_page_url L u =
     (case urlparse L u of
        Inl e \<Rightarrow> Inl e
      | Inr p \<Rightarrow> Inr (\<not> prefix ''/country/'' (path p)))"

text \<open>
  \<^verbatim>\<open>get_location_page_data\<close> after its \<^verbatim>\<open>download_html\<close>: a \<^verbatim>\<open>Tag\<close> is always true as
  a condition, so the test is that the element is there and its text is not empty.
\<close>

definition get_location_page_data ::
  "library_error + BeautifulSoup \<Rightarrow> library_error + (string \<rightharpoonup> string)" where
  "get_location_page_data res =
     (case res of
        Inl e \<Rightarrow> Inl e
      | Inr soup \<Rightarrow>
          Inr (case place_description soup of
                 None \<Rightarrow> Map.empty
               | Some t \<Rightarrow> if t \<noteq> [] then [''description'' \<mapsto> t] else Map.empty))"

text \<open>
  \<^verbatim>\<open>location_handler\<close> returns the location as it leaves it. \<^verbatim>\<open>d |= e\<close> on
  dictionaries is \<open>d ++ e\<close>. An exception of \<^verbatim>\<open>can_be_location_page_url\<close> is outside
  the \<^verbatim>\<open>try\<close> and ends the handler before it touches the location.
\<close>

definition location_handler :: "'f stdlib \<Rightarrow> site \<Rightarrow> 'f GeoLocation \<Rightarrow> 'f GeoLocation" where
  "location_handler L web location =
     (case can_be_location_page_url L (url location) of
        Inl e \<Rightarrow> location
      | Inr False \<Rightarrow> location
      | Inr True \<Rightarrow>
          (case get_location_page_data (web (url location)) of
             Inl e \<Rightarrow> location
           | Inr placeinfo \<Rightarrow> location\<lparr>data := data location ++ placeinfo\<rparr>))"

record 'f Feature =
  geometry :: "'f \<times> 'f"
  properties :: "string \<rightharpoonup> string"

definition build_geojson :: "'f WikimapiaCrawler \<Rightarrow> 'f Feature list" where
  "build_geojson c =
     map (\<lambda>location. \<lparr>geometry = (lon (hd (points location)), lat (hd (points location))),
                      properties = data location\<rparr>)
       (filter (\<lambda>location. points location \<noteq> []) (geo_locations c))"

subsection \<open>The workers\<close>

text \<open>
  The \<^verbatim>\<open>finally\<close> block of \<^verbatim>\<open>url_handler\<close>: \<^verbatim>\<open>self.visited_urls.add(url)\<close>, then
  \<^verbatim>\<open>task_done()\<close>, whose \<^verbatim>\<open>ValueError\<close> would leave the handler.
\<close>

definition mark_done ::
  "'f WikimapiaCrawler \<Rightarrow> string \<Rightarrow> 'f WikimapiaCrawler \<times> library_error option" where
  "mark_done c u =
     (let c' = c\<lparr>visited_urls := insert u (visited_urls c)\<rparr> in
      case task_done (urls_to_visit c') of
        Inl e \<Rightarrow> (c', Some e)
      | Inr q \<Rightarrow> (c'\<lparr>urls_to_visit := q\<rparr>, None))"

text \<open>
  One pass of the body of the loop once the download of \<open>u\<close> has returned \<open>res\<close>:
  \<^verbatim>\<open>except Exception\<close> logs and drops the exception of \<^verbatim>\<open>crawl\<close>, then comes the
  \<^verbatim>\<open>finally\<close> block.
\<close>

definition handle_page ::
  "'f stdlib \<Rightarrow> 'f WikimapiaCrawler \<Rightarrow> string \<Rightarrow> library_error + BeautifulSoup
     \<Rightarrow> 'f WikimapiaCrawler \<times> library_error option" where
  "handle_page L c u res = (case crawl_page L c u res of (c', e) \<Rightarrow> mark_done c' u)"

text \<open>
  A \<^verbatim>\<open>url_handler\<close> task is suspended in \<^verbatim>\<open>urls_to_visit.get()\<close> (\<open>AwaitGet\<close>) or in
  the download of the URL it has dequeued (\<open>AwaitDownload\<close>), or it has ended with an
  exception (\<open>Failed\<close>). Between two suspensions a task runs alone, so the pool moves by
  two kinds of event: task \<open>w\<close> gets an item and starts its download, or the download of
  task \<open>w\<close> returns and the task handles the page.
\<close>

datatype task = AwaitGet | AwaitDownload string | Failed library_error

record 'f pool =
  crawler :: "'f WikimapiaCrawler"
  handlers :: "task list"

datatype event = Get nat | Complete nat

fun step :: "'f stdlib \<Rightarrow> site \<Rightarrow> 'f pool \<Rightarrow> event \<Rightarrow> 'f pool" where
  "step L web P (Get w) =
     (if w < length (handlers P) \<and> handlers P ! w = AwaitGet then
        (case get (urls_to_visit (crawler P)) of
           (Blocks, q) \<Rightarrow> P
         | (Raises e, q) \<Rightarrow>
             \<lparr>crawler = (crawler P)\<lparr>urls_to_visit := q\<rparr>,
              handlers = (handlers P)[w := Failed e]\<rparr>
         | (Returns u, q) \<Rightarrow>
             \<lparr>crawler = snd (download_html web ((crawler P)\<lparr>urls_to_visit := q\<rparr>) u),
              handlers = (handlers P)[w := AwaitDownload u]\<rparr>)
      else P)"
| "step L web P (Complete w) =
     (if w < length (handlers P) then
        (case handlers P ! w of
           AwaitDownload u \<Rightarrow>
             (case handle_page L (crawler P) u (web u) of
                (c', None) \<Rightarrow> \<lparr>crawler = c', handlers = (handlers P)[w := AwaitGet]\<rparr>
              | (c', Some e) \<Rightarrow> \<lparr>crawler = c', handlers = (handlers P)[w := Failed e]\<rparr>)
         | _ \<Rightarrow> P)
      else P)"

definition exec :: "'f stdlib \<Rightarrow> site \<Rightarrow> 'f pool \<Rightarrow> event list \<Rightarrow> 'f pool" where
  "exec L web P evs = foldl (step L web) P evs"

definition start_pool :: "'f WikimapiaCrawler \<Rightarrow> 'f pool" where
  "start_pool c = \<lparr>crawler = c, handlers = replicate (workers_num c) AwaitGet\<rparr>"

text \<open>
  What holds of the pool while it runs: the membership set of the queue is the set of
  the buffered URLs, none buffered twice; \<open>unfinished_tasks\<close> counts the buffered URLs
  and those being downloaded; no handler has ended with an exception.
\<close>

fun downloading :: "task \<Rightarrow> bool" where
  "downloading (AwaitDownload u) \<longleftrightarrow> True"
| "downloading t \<longleftrightarrow> False"

fun failed :: "task \<Rightarrow> bool" where
  "failed (Failed e) \<longleftrightarrow> True"
| "failed t \<longleftrightarrow> False"

definition queue_ok :: "SetAsyncioQueue \<Rightarrow> bool" where
  "queue_ok q \<longleftrightarrow> set_data q = set (items q) \<and> distinct (items q)"

definition pool_inv :: "'f pool \<Rightarrow> bool" where
  "pool_inv P \<longleftrightarrow>
     queue_ok (urls_to_visit (crawler P))
     \<and> unfinished_tasks (urls_to_visit (crawler P))
         = length (items (urls_to_visit (crawler P))) + length (filter downloading (handlers P))
     \<and> (\<forall>t \<in> set (handlers P). \<not> failed t)"

text \<open>
  What holds of the crawl besides: the URLs \<open>known\<close> to the pool are the pending ones, the
  visited ones and those being downloaded; the seed is known, and so is every link that
  the link scan yields on a visited page (\<open>links_known\<close>); the locations that the
  location scan yields on a visited page are in the store (\<open>harvested\<close>, with the base
  that \<^verbatim>\<open>crawl\<close> hands to the scan); every stored location has a point, and the points
  in the store are older than the next new object (\<open>store_fresh\<close>). \<open>fresh_from n\<close> says
  of a list of locations that each has one point and that these are the objects
  \<open>n\<close>, \<open>n + 1\<close>, ... in this order.
\<close>

definition known :: "'f pool \<Rightarrow> string set" where
  "known P =
     set_data (urls_to_visit (crawler P)) \<union> visited_urls (crawler P)
       \<union> {u. AwaitDownload u \<in> set (handlers P)}"

definition links_known :: "'f stdlib \<Rightarrow> site \<Rightarrow> 'f pool \<Rightarrow> bool" where
  "links_known L web P \<longleftrightarrow>
     (\<forall>u \<in> visited_urls (crawler P). \<forall>soup. web u = Inr soup \<longrightarrow>
        set (fst (get_linked_urls L u (find_all_a_href soup))) \<subseteq> known P)"

definition harvested :: "'f stdlib \<Rightarrow> site \<Rightarrow> 'f WikimapiaCrawler \<Rightarrow> bool" where
  "harvested L web c \<longleftrightarrow>
     (\<forall>u \<in> visited_urls c. \<forall>soup links.
        web u = Inr soup \<and> get_linked_urls L u (find_all_a_href soup) = (links, None) \<longrightarrow>
        (\<exists>k. set (fst (get_geo_locations L (if links = [] then u else last links)
                        (find_all_li soup) k)) \<subseteq> set (geo_locations c)))"

definition store_fresh :: "'f WikimapiaCrawler \<Rightarrow> bool" where
  "store_fresh c \<longleftrightarrow>
     (\<forall>x \<in> set (geo_locations c). points x \<noteq> [] \<and> (\<forall>p \<in> set (points x). oid p < next_oid c))"

fun fresh_from :: "nat \<Rightarrow> 'f GeoLocation list \<Rightarrow> bool" where
  "fresh_from n [] \<longleftrightarrow> True"
| "fresh_from n (g # gs) \<longleftrightarrow> (\<exists>p. points g = [p] \<and> oid p = n) \<and> fresh_from (Suc n) gs"

definition crawl_inv :: "'f stdlib \<Rightarrow> site \<Rightarrow> string \<Rightarrow> 'f pool \<Rightarrow> bool" where
  "crawl_inv L web seed P \<longleftrightarrow>
     pool_inv P \<and> seed \<in> known P \<and> links_known L web P \<and> harvested L web (crawler P)
     \<and> store_fresh (crawler P)"

subsection \<open>\<^verbatim>\<open>run\<close>\<close>

text \<open>
  \<^verbatim>\<open>urls_to_visit.join()\<close> returns as soon as \<open>unfinished_tasks\<close> is zero, and the
  handlers are then cancelled. The order in which the handlers move is the schedule
  \<open>evs\<close>; a schedule that ends before the queue is drained gives \<open>None\<close>, as does a
  crawl that never drains it.
\<close>

fun drain :: "'f stdlib \<Rightarrow> site \<Rightarrow> 'f pool \<Rightarrow> event list \<Rightarrow> 'f pool option" where
  "drain L web P [] =
     (if unfinished_tasks (urls_to_visit (crawler P)) = 0 then Some P else None)"
| "drain L web P (ev # evs) =
     (if unfinished_tasks (urls_to_visit (crawler P)) = 0 then Some P
      else drain L web (step L web P ev) evs)"

text \<open>
  \<^verbatim>\<open>pool.map(self.location_handler, self.geo_locations)\<close>: each handler changes its own
  location only, and \<^verbatim>\<open>AioPool.map\<close> collects the exceptions of the handlers without
  raising them. The requests are logged in the order of the store.
\<close>

definition enrich :: "'f stdlib \<Rightarrow> site \<Rightarrow> 'f WikimapiaCrawler \<Rightarrow> 'f WikimapiaCrawler" where
  "enrich L web c =
     c\<lparr>geo_locations := map (location_handler L web) (geo_locations c),
       requested := requested c @
         map url (filter (\<lambda>location. can_be_location_page_url L (url location) = Inr True)
                    (geo_locations c))\<rparr>"

definition run ::
  "'f stdlib \<Rightarrow> site \<Rightarrow> event list \<Rightarrow> 'f WikimapiaCrawler \<Rightarrow> string
     \<Rightarrow> ((exn + 'f Feature list) \<times> 'f WikimapiaCrawler) option" where
  "run L web evs c location_name =
     (case find_location_in_page L web c (start_url c) location_name of
        (Inl e, c1) \<Rightarrow> Some (Inl e, c1)
      | (Inr (found_name, location_url), c1) \<Rightarrow>
          (case drain L web (start_pool (add_url_to_visit c1 location_url)) evs of
             None \<Rightarrow> None
           | Some P \<Rightarrow>
               (let c2 = enrich L web (crawler P) in Some (Inr (build_geojson c2), c2))))"

section \<open>An instance of the library\<close>

text \<open>
  The functions of \<^verbatim>\<open>urllib.parse\<close> that the program calls, after their source in
  CPython 3.11, for strings of ASCII characters. Not modelled: the validation of a host
  written in brackets (only unmatched brackets raise here) and the check of non-ASCII
  hosts; an escape \<^verbatim>\<open>%XX\<close> is decoded when it stands for an ASCII character.
\<close>

fun split_on :: "char \<Rightarrow> string \<Rightarrow> string list" where
  "split_on c [] = [[]]"
| "split_on c (x # xs) =
     (if x = c then [] # split_on c xs
      else (case split_on c xs of [] \<Rightarrow> [[x]] | y # ys \<Rightarrow> (x # y) # ys))"

fun join_with :: "string \<Rightarrow> string list \<Rightarrow> string" where
  "join_with sep [] = []"
| "join_with sep [x] = x"
| "join_with sep (x # y # zs) = x @ sep @ join_with sep (y # zs)"

definition before :: "char \<Rightarrow> string \<Rightarrow> string" where
  "before c s = takeWhile (\<lambda>x. x \<noteq> c) s"

definition after :: "char \<Rightarrow> string \<Rightarrow> string" where
  "after c s = drop 1 (dropWhile (\<lambda>x. x \<noteq> c) s)"

definition ascii_uppercase :: string where
  "ascii_uppercase = ''ABCDEFGHIJKLMNOPQRSTUVWXYZ''"

definition ascii_lowercase :: string where
  "ascii_lowercase = ''abcdefghijklmnopqrstuvwxyz''"

definition digits :: string where
  "digits = ''0123456789''"

definition scheme_chars :: string where
  "scheme_chars = ascii_lowercase @ ascii_uppercase @ digits @ ''+-.''"

definition lower :: "string \<Rightarrow> string" where
  "lower s =
     map (\<lambda>c. case map_of (zip ascii_uppercase ascii_lowercase) c of None \<Rightarrow> c | Some l \<Rightarrow> l) s"

definition uses_relative :: "string list" where
  "uses_relative = ['''', ''ftp'', ''http'', ''gopher'', ''nntp'', ''imap'', ''wais'', ''file'',
     ''https'', ''shttp'', ''mms'', ''prospero'', ''rtsp'', ''rtsps'', ''rtspu'', ''sftp'',
     ''svn'', ''svn+ssh'', ''ws'', ''wss'']"

definition uses_netloc :: "string list" where
  "uses_netloc = ['''', ''ftp'', ''http'', ''gopher'', ''nntp'', ''telnet'', ''imap'', ''wais'',
     ''file'', ''mms'', ''https'', ''shttp'', ''snews'', ''prospero'', ''rtsp'', ''rtsps'',
     ''rtspu'', ''rsync'', ''svn'', ''svn+ssh'', ''sftp'', ''nfs'', ''git'', ''git+ssh'',
     ''ws'', ''wss'']"

definition uses_params :: "string list" where
  "uses_params = ['''', ''ftp'', ''hdl'', ''prospero'', ''http'', ''imap'', ''https'', ''shttp'',
     ''rtsp'', ''rtsps'', ''rtspu'', ''sip'', ''sips'', ''mms'', ''sftp'', ''tel'']"

text \<open>
  \<^verbatim>\<open>urlsplit(url, scheme)\<close>: the result is the tuple
  \<^verbatim>\<open>(scheme, netloc, url, query, fragment)\<close>.
\<close>

definition lstrip_c0 :: "string \<Rightarrow> string" where
  "lstrip_c0 s = dropWhile (\<lambda>c. of_char c \<le> (32::nat)) s"

definition remove_unsafe :: "string \<Rightarrow> string" where
  "remove_unsafe s = filter (\<lambda>c. c \<notin> {CHR 0x09, CHR 0x0D, CHR 0x0A}) s"

definition urlsplit ::
  "string \<Rightarrow> string \<Rightarrow> library_error + string \<times> string \<times> string \<times> string \<times> string" where
  "urlsplit url0 scheme0 =
     (let u1 = remove_unsafe (lstrip_c0 url0);
          s1 = remove_unsafe (rev (lstrip_c0 (rev (lstrip_c0 scheme0))));
          (s2, u2) =
            (if CHR '':'' \<in> set u1 \<and> before CHR '':'' u1 \<noteq> []
                \<and> hd u1 \<in> set (ascii_lowercase @ ascii_uppercase)
                \<and> (\<forall>c \<in> set (before CHR '':'' u1). c \<in> set scheme_chars)
             then (lower (before CHR '':'' u1), after CHR '':'' u1)
             else (s1, u1));
          (nl, u3) =
            (if take 2 u2 = ''//''
             then (takeWhile (\<lambda>c. c \<notin> set ''/?#'') (drop 2 u2),
                   dropWhile (\<lambda>c. c \<notin> set ''/?#'') (drop 2 u2))
             else ([], u2));
          (u4, fr) =
            (if CHR ''#'' \<in> set u3 then (before CHR ''#'' u3, after CHR ''#'' u3) else (u3, []));
          (u5, qu) =
            (if CHR ''?'' \<in> set u4 then (before CHR ''?'' u4, after CHR ''?'' u4) else (u4, []))
      in if (CHR ''['' \<in> set nl) \<noteq> (CHR '']'' \<in> set nl) then Inl ValueError
         else Inr (s2, nl, u5, qu, fr))"

definition splitparams :: "string \<Rightarrow> string \<times> string" where
  "splitparams u =
     (if CHR ''/'' \<in> set u then
        (let t = rev (takeWhile (\<lambda>c. c \<noteq> CHR ''/'') (rev u));
             h = take (length u - length t) u
         in if CHR '';'' \<in> set t then (h @ before CHR '';'' t, after CHR '';'' t) else (u, []))
      else (before CHR '';'' u, after CHR '';'' u))"

definition py_urlparse :: "string \<Rightarrow> string \<Rightarrow> library_error + ParseResult" where
  "py_urlparse url0 scheme0 =
     (case urlsplit url0 scheme0 of
        Inl e \<Rightarrow> Inl e
      | Inr (s, nl, u, qu, fr) \<Rightarrow>
          (let (u', ps) =
                 (if s \<in> set uses_params \<and> CHR '';'' \<in> set u then splitparams u else (u, []))
           in Inr \<lparr>scheme = s, netloc = nl, path = u', params = ps, query = qu,
                   fragment = fr\<rparr>))"

definition urlunsplit :: "string \<Rightarrow> string \<Rightarrow> string \<Rightarrow> string \<Rightarrow> string \<Rightarrow> string" where
  "urlunsplit s nl u qu fr =
     (let u1 = (if nl \<noteq> [] \<or> (s \<noteq> [] \<and> s \<in> set uses_netloc) \<or> take 2 u = ''//''
                then ''//'' @ nl @ (if u \<noteq> [] \<and> take 1 u \<noteq> ''/'' then ''/'' @ u else u)
                else u);
          u2 = (if s \<noteq> [] then s @ '':'' @ u1 else u1);
          u3 = (if qu \<noteq> [] then u2 @ ''?'' @ qu else u2)
      in if fr \<noteq> [] then u3 @ ''#'' @ fr else u3)"

definition urlunparse :: "ParseResult \<Rightarrow> string" where
  "urlunparse r =
     urlunsplit (scheme r) (netloc r)
       (if params r \<noteq> [] then path r @ '';'' @ params r else path r) (query r) (fragment r)"

text \<open>The loop of \<^verbatim>\<open>urljoin\<close> over the segments, and \<^verbatim>\<open>urljoin\<close>.\<close>

definition resolve_segments :: "string list \<Rightarrow> string list" where
  "resolve_segments segments =
     foldl (\<lambda>resolved seg.
              if seg = ''..'' then butlast resolved
              else if seg = ''.'' then resolved
              else resolved @ [seg]) [] segments"

definition py_urljoin :: "string \<Rightarrow> string \<Rightarrow> library_error + string" where
  "py_urljoin base u =
     (if base = [] then Inr u
      else if u = [] then Inr base
      else
        (case py_urlparse base [] of
           Inl e \<Rightarrow> Inl e
         | Inr b \<Rightarrow>
             (case py_urlparse u (scheme b) of
                Inl e \<Rightarrow> Inl e
              | Inr r \<Rightarrow>
                  (if scheme r \<noteq> scheme b \<or> scheme r \<notin> set uses_relative then Inr u
                   else if scheme r \<in> set uses_netloc \<and> netloc r \<noteq> [] then Inr (urlunparse r)
                   else
                     (let nl = (if scheme r \<in> set uses_netloc then netloc b else netloc r) in
                      if path r = [] \<and> params r = [] then
                        Inr (urlunparse
                              (r\<lparr>netloc := nl, path := path b, params := params b,
                                 query := (if query r = [] then query b else query r)\<rparr>))
                      else
                        (let bp = split_on CHR ''/'' (path b);
                             base_parts = (if last bp \<noteq> [] then butlast bp else bp);
                             segments =
                               (if take 1 (path r) = ''/'' then split_on CHR ''/'' (path r)
                                else
                                  (let sg = base_parts @ split_on CHR ''/'' (path r) in
                                   take 1 sg @ filter (\<lambda>x. x \<noteq> []) (butlast (drop 1 sg))
                                     @ (if 2 \<le> length sg then [last sg] else [])));
                             resolved = resolve_segments segments
                                 @ (if last segments \<in> {''.'', ''..''} then [[]] else []);
                             joined = join_with ''/'' resolved
                         in Inr (urlunparse
                                  (r\<lparr>netloc := nl,
                                     path := (if joined = [] then ''/'' else joined)\<rparr>))))))))"

text \<open>
  \<^verbatim>\<open>parse_qs\<close> with its defaults: fields are separated by \<^verbatim>\<open>&\<close>, a field with an
  empty value is dropped, names and values are unquoted, and the values of a name are
  collected in order.
\<close>

definition hex_value :: "char \<Rightarrow> nat option" where
  "hex_value c =
     map_of (zip ''0123456789abcdefABCDEF''
       [0, 1, 2, 3, 4, 5, 6, 7, 8, 9, 10, 11, 12, 13, 14, 15, 10, 11, 12, 13, 14, 15]) c"

fun unquote :: "string \<Rightarrow> string" where
  "unquote (c # h # l # rest) =
     (if c = CHR ''%'' then
        (case (hex_value h, hex_value l) of
           (Some a, Some b) \<Rightarrow>
             (if a < 8 then char_of (16 * a + b) # unquote rest
              else c # unquote (h # l # rest))
         | _ \<Rightarrow> c # unquote (h # l # rest))
      else c # unquote (h # l # rest))"
| "unquote s = s"

definition unquote_plus :: "string \<Rightarrow> string" where
  "unquote_plus s = unquote (map (\<lambda>c. if c = CHR ''+'' then CHR '' '' else c) s)"

definition parse_qsl :: "string \<Rightarrow> (string \<times> string) list" where
  "parse_qsl qs =
     (if qs = [] then []
      else concat (map (\<lambda>name_value.
             if name_value \<noteq> [] \<and> after CHR ''='' name_value \<noteq> []
             then [(unquote_plus (before CHR ''='' name_value),
                    unquote_plus (after CHR ''='' name_value))]
             else []) (split_on CHR ''&'' qs)))"

definition py_parse_qs :: "string \<Rightarrow> (string \<rightharpoonup> string list)" where
  "py_parse_qs qs =
     foldl (\<lambda>parsed_result (name, v).
              parsed_result(name \<mapsto> (case parsed_result name of
                                         None \<Rightarrow> [v]
                                       | Some vs \<Rightarrow> vs @ [v])))
       Map.empty (parse_qsl qs)"

text \<open>
  \<^verbatim>\<open>float\<close> on a decimal literal: an optional sign, digits and at most one point, with
  a digit somewhere. The result is the real number written; the rounding to a binary
  double is not modelled, nor are the other spellings that Python accepts (exponents,
  \<^verbatim>\<open>inf\<close>, \<^verbatim>\<open>nan\<close>, blanks around the number, underscores), which give
  \<^verbatim>\<open>ValueError\<close> here.
\<close>

definition digits_value :: "string \<Rightarrow> nat" where
  "digits_value s = foldl (\<lambda>n c. 10 * n + (of_char c - 48)) 0 s"

definition py_float :: "string \<Rightarrow> library_error + real" where
  "py_float s =
     (let (sgn, body) =
            (case s of
               [] \<Rightarrow> (1, [])
             | c # r \<Rightarrow> if c = CHR ''-'' then (- 1, r) else if c = CHR ''+'' then (1, r) else (1, s));
          ip = before CHR ''.'' body;
          fp = after CHR ''.'' body
      in if ip @ fp = [] \<or> (\<exists>c \<in> set (ip @ fp). c \<notin> set digits) then Inl ValueError
         else Inr (sgn * real (digits_value (ip @ fp)) / 10 ^ length fp))"

text \<open>
  On ASCII strings \<^verbatim>\<open>casefold\<close> is \<^verbatim>\<open>lower\<close> and NFKD normalisation changes nothing.
\<close>

definition py :: "real stdlib" where
  "py = \<lparr>urlparse = (\<lambda>u. py_urlparse u []), urljoin = py_urljoin,
         parse_qs = (\<lambda>qs. Inr (py_parse_qs qs)), float = py_float,
         casefold = lower, normalize_NFKD = (\<lambda>s. s)\<rparr>"

section \<open>Example sites\<close>

text \<open>
  Pages and sites at which properties are evaluated below. \<open>map_anchor\<close> is the second
  anchor of a location pair, with the target of the docstring.
\<close>

definition WIKIMAPIA_START_URL :: string where
  "WIKIMAPIA_START_URL = ''https://wikimapia.org/country/''"

definition israel :: string where
  "israel = ''https://wikimapia.org/country/Israel/''"

definition arad :: string where
  "arad = ''http://wikimapia.org/15002/Arad-Israel''"

definition map_href :: string where
  "map_href = ''/#lang=en&lat=-14.260057&lon=-170.649948&z=13&m=w''"

definition map_anchor :: anchor where
  "map_anchor = \<lparr>tag_text = ''map'', href = Some map_href\<rparr>"

definition no_page :: BeautifulSoup where
  "no_page = \<lparr>find_all_a_href = [], find_all_li = [], select_linkslist_a = [],
              place_description = None\<rparr>"

text \<open>The start page lists one place, \<open>Arad\<close>, whose anchor has an empty target.\<close>

definition empty_href_site :: site where
  "empty_href_site u =
     Inr (no_page\<lparr>find_all_a_href := [[]],
                  select_linkslist_a := [\<lparr>tag_text = ''Arad'', href = Some []\<rparr>]\<rparr>)"

text \<open>The start page lists one place, \<open>Haifa\<close>.\<close>

definition haifa_site :: site where
  "haifa_site u =
     Inr (no_page\<lparr>find_all_a_href := [''Haifa/''],
                  select_linkslist_a := [\<lparr>tag_text = ''Haifa'', href = Some ''Haifa/''\<rparr>]\<rparr>)"

text \<open>A page with one location pair that links to a detail page, and no link in scope.\<close>

definition one_pair_site :: site where
  "one_pair_site u =
     Inr (no_page\<lparr>find_all_a_href := [arad, map_href],
                  find_all_li := [[\<lparr>tag_text = ''Arad'', href = Some arad\<rparr>, map_anchor]]\<rparr>)"

text \<open>A page with one location pair whose link is relative to the page.\<close>

definition relative_site :: site where
  "relative_site u =
     Inr (no_page\<lparr>find_all_a_href := [''Arad/'', map_href],
                  find_all_li := [[\<lparr>tag_text = ''Arad'', href = Some ''Arad/''\<rparr>, map_anchor]]\<rparr>)"

text \<open>
  The page of \<open>israel\<close> links to a child page and to itself and has one location pair;
  every other request fails.
\<close>

definition self_link_site :: site where
  "self_link_site u =
     (if u = israel then
        Inr (no_page\<lparr>find_all_a_href := [''Negev/'', ''/country/Israel/'', arad, map_href],
                     find_all_li := [[\<lparr>tag_text = ''Arad'', href = Some arad\<rparr>, map_anchor]]\<rparr>)
      else Inl (RequestError ''404''))"

text \<open>
  A site for a whole run: the start page lists \<open>Israel\<close>; the page of \<open>israel\<close> links to
  two child pages; the first, \<open>haifa\<close>, cannot be fetched; the second, \<open>negev\<close>, has one
  location pair, whose detail page has a description.
\<close>

definition haifa :: string where
  "haifa = ''https://wikimapia.org/country/Israel/Haifa/''"

definition negev :: string where
  "negev = ''https://wikimapia.org/country/Israel/Negev/''"

definition pool_site :: site where
  "pool_site u =
     (if u = WIKIMAPIA_START_URL then
        Inr (no_page\<lparr>find_all_a_href := [''Israel/''],
                     select_linkslist_a := [\<lparr>tag_text = ''Israel'', href = Some ''Israel/''\<rparr>]\<rparr>)
      else if u = israel then
        Inr (no_page\<lparr>find_all_a_href := [''Haifa/'', ''Negev/'']\<rparr>)
      else if u = negev then
        Inr (no_page\<lparr>find_all_a_href := [arad, map_href],
                     find_all_li := [[\<lparr>tag_text = ''Arad'', href = Some arad\<rparr>, map_anchor]]\<rparr>)
      else if u = arad then
        Inr (no_page\<lparr>place_description := Some ''A city in the Negev''\<rparr>)
      else Inl (RequestError ''404''))"

text \<open>A detail page with a description, a site that serves it, and a site that is down.\<close>

definition described_site :: site where
  "described_site u = Inr (no_page\<lparr>place_description := Some ''A city in the Negev''\<rparr>)"

definition down_site :: site where
  "down_site u = Inl (RequestError ''timeout'')"

section \<open>Lemmas\<close>

subsection \<open>The pattern \<^verbatim>\<open>^.*?lat\<close>\<close>

lemma prefix_lat_sublist:
  assumes "prefix ''lat'' (a @ ''lat'' @ b)" "a \<noteq> []"
  shows "sublist ''lat'' (a @ ''la'')"
proof -
  from assms(1) obtain zs where zs: "a @ ''lat'' @ b = ''lat'' @ zs"
    unfolding prefix_def by blast
  have "take 3 (a @ ''lat'' @ b) = take 3 (''lat'' @ zs)"
    by (simp only: zs)
  then have t: "take 3 (a @ ''lat'' @ b) = ''lat''" by simp
  have "take 3 (a @ ''lat'' @ b) = take 3 (a @ ''la'')"
    using assms(2) by (cases a; cases "tl a"; cases "tl (tl a)") auto
  with t have "take 3 (a @ ''la'') = ''lat''" by simp
  then have "a @ ''la'' = ''lat'' @ drop 3 (a @ ''la'')"
    by (metis append_take_drop_id)
  then have "a @ ''la'' = [] @ ''lat'' @ drop 3 (a @ ''la'')" by simp
  then show ?thesis unfolding sublist_def by blast
qed

lemma after_lat_first:
  "CHR 0x0A \<notin> set a \<Longrightarrow> \<not> sublist ''lat'' (a @ ''la'') \<Longrightarrow> after_lat (a @ ''lat'' @ b) = Some b"
proof (induction a)
  case Nil
  then show ?case by simp
next
  case (Cons c a)
  define s where "s = a @ ''lat'' @ b"
  have np: "\<not> prefix ''lat'' (c # s)"
    using prefix_lat_sublist[of "c # a" b] Cons.prems(2) unfolding s_def by auto
  have "\<not> sublist ''lat'' (a @ ''la'')"
    using Cons.prems(2) by (auto simp: sublist_Cons_right)
  with Cons have ih: "after_lat s = Some b" unfolding s_def by simp
  have c: "c \<noteq> CHR 0x0A" using Cons.prems(1) by auto
  have "after_lat (c # s) = after_lat s"
    by (simp only: after_lat.simps np c if_False)
  with ih show ?case unfolding s_def by simp
qed

subsection \<open>Coordinates\<close>

lemma point_only_if:
  assumes "get_point_from_map_url L n m = Some p"
  shows "\<exists>ps la lo. get_params_from_map_url L m = Inr ps
           \<and> ps ''lat'' = Some (Str la) \<and> ps ''lon'' = Some (Str lo)
           \<and> float L la = Inr (lat p) \<and> float L lo = Inr (lon p) \<and> oid p = n"
proof -
  from assms obtain ps where ps: "get_params_from_map_url L m = Inr ps"
    by (auto simp: get_point_from_map_url_def split: sum.splits)
  from assms ps obtain x y where xy: "ps ''lat'' = Some x" "ps ''lon'' = Some y"
    by (auto simp: get_point_from_map_url_def split: option.splits)
  from assms ps xy obtain la lo where f: "float_of_param L x = Inr la" "float_of_param L y = Inr lo"
      and p: "p = \<lparr>oid = n, lon = lo, lat = la\<rparr>"
    by (auto simp: get_point_from_map_url_def split: sum.splits if_splits)
  from f obtain sx sy where "x = Str sx" "y = Str sy"
    by (cases x; cases y) auto
  with f p xy ps show ?thesis by auto
qed

subsection \<open>The example of the docstring, step by step\<close>

lemma example_legal_url:
  "re_sub_lat ''/#lang=en&lat=-14.260057&lon=-170.649948&z=13&m=w''
     = ''?lat=-14.260057&lon=-170.649948&z=13&m=w''"
  by (simp add: re_sub_lat_def)

lemma example_query:
  "urlparse py ''?lat=-14.260057&lon=-170.649948&z=13&m=w''
     = Inr \<lparr>scheme = [], netloc = [], path = [], params = [],
             query = ''lat=-14.260057&lon=-170.649948&z=13&m=w'', fragment = []\<rparr>"
  by code_simp

lemma example_pairs:
  "parse_qsl ''lat=-14.260057&lon=-170.649948&z=13&m=w''
     = [(''lat'', ''-14.260057''), (''lon'', ''-170.649948''), (''z'', ''13''), (''m'', ''w'')]"
  by code_simp

lemma example_params:
  "get_params_from_map_url py (Some ''/#lang=en&lat=-14.260057&lon=-170.649948&z=13&m=w'')
     = Inr (\<lambda>key. map_option flatten_param
              (py_parse_qs ''lat=-14.260057&lon=-170.649948&z=13&m=w'' key))"
  by (simp add: get_params_from_map_url_def example_legal_url example_query) (simp add: py_def)

lemma example_lat_lon:
  "py_parse_qs ''lat=-14.260057&lon=-170.649948&z=13&m=w'' ''lat'' = Some [''-14.260057'']"
  "py_parse_qs ''lat=-14.260057&lon=-170.649948&z=13&m=w'' ''lon'' = Some [''-170.649948'']"
  by (simp_all add: py_parse_qs_def example_pairs)

lemma example_floats:
  "float py ''-14.260057'' = Inr (- 14.260057)"
  "float py ''-170.649948'' = Inr (- 170.649948)"
  by (simp_all add: py_def py_float_def before_def after_def digits_def digits_value_def)

lemma example_point:
  "get_point_from_map_url py n (Some ''/#lang=en&lat=-14.260057&lon=-170.649948&z=13&m=w'')
     = Some \<lparr>oid = n, lon = - 170.649948, lat = - 14.260057\<rparr>"
  by (simp add: get_point_from_map_url_def example_params example_lat_lon flatten_param_def
        example_floats)

lemma missing_legal_url:
  "re_sub_lat ''/#lang=en&lat=-14.260057&z=13&m=w'' = ''?lat=-14.260057&z=13&m=w''"
  by (simp add: re_sub_lat_def)

lemma missing_query:
  "urlparse py ''?lat=-14.260057&z=13&m=w''
     = Inr \<lparr>scheme = [], netloc = [], path = [], params = [],
             query = ''lat=-14.260057&z=13&m=w'', fragment = []\<rparr>"
  by code_simp

lemma missing_pairs:
  "parse_qsl ''lat=-14.260057&z=13&m=w''
     = [(''lat'', ''-14.260057''), (''z'', ''13''), (''m'', ''w'')]"
  by code_simp

lemma missing_point:
  "get_point_from_map_url py n (Some ''/#lang=en&lat=-14.260057&z=13&m=w'') = None"
  by (simp add: get_point_from_map_url_def get_params_from_map_url_def missing_legal_url
        missing_query)
     (simp add: py_def py_parse_qs_def missing_pairs)

subsection \<open>The scan of the navigation list\<close>

lemma find_a_tag_NotFound:
  "find_a_tag L start search_name a_tags = Inl NotFoundError \<longleftrightarrow>
     (\<forall>a \<in> set a_tags. \<exists>h. href a = Some h
         \<and> \<not> (h \<noteq> [] \<and> caseless_equal L (tag_text a) search_name))"
  by (induction a_tags) (auto split: option.splits sum.splits)

subsection \<open>The library instance on the example URLs\<close>

lemma parse_arad:
  "urlparse py arad = Inr \<lparr>scheme = ''http'', netloc = ''wikimapia.org'',
     path = ''/15002/Arad-Israel'', params = [], query = [], fragment = []\<rparr>"
  unfolding arad_def by code_simp

lemma parse_israel:
  "urlparse py israel = Inr \<lparr>scheme = ''https'', netloc = ''wikimapia.org'',
     path = ''/country/Israel/'', params = [], query = [], fragment = []\<rparr>"
  unfolding israel_def by code_simp

lemma join_israel_arad: "urljoin py israel arad = Inr arad"
  unfolding israel_def arad_def by code_simp

lemma join_israel_map:
  "urljoin py israel map_href
     = Inr ''https://wikimapia.org/#lang=en&lat=-14.260057&lon=-170.649948&z=13&m=w''"
  unfolding israel_def map_href_def by code_simp

lemma parse_israel_map:
  "urlparse py ''https://wikimapia.org/#lang=en&lat=-14.260057&lon=-170.649948&z=13&m=w''
     = Inr \<lparr>scheme = ''https'', netloc = ''wikimapia.org'', path = ''/'', params = [],
             query = [], fragment = ''lang=en&lat=-14.260057&lon=-170.649948&z=13&m=w''\<rparr>"
  by code_simp

lemma join_israel_Arad:
  "urljoin py israel ''Arad/'' = Inr ''https://wikimapia.org/country/Israel/Arad/''"
  unfolding israel_def by code_simp

lemma parse_israel_Arad:
  "urlparse py ''https://wikimapia.org/country/Israel/Arad/''
     = Inr \<lparr>scheme = ''https'', netloc = ''wikimapia.org'', path = ''/country/Israel/Arad/'',
             params = [], query = [], fragment = []\<rparr>"
  by code_simp

lemma join_Arad_Arad:
  "urljoin py ''https://wikimapia.org/country/Israel/Arad/'' ''Arad/''
     = Inr ''https://wikimapia.org/country/Israel/Arad/Arad/''"
  by code_simp

lemma join_israel_Negev:
  "urljoin py israel ''Negev/'' = Inr ''https://wikimapia.org/country/Israel/Negev/''"
  unfolding israel_def by code_simp

lemma parse_israel_Negev:
  "urlparse py ''https://wikimapia.org/country/Israel/Negev/''
     = Inr \<lparr>scheme = ''https'', netloc = ''wikimapia.org'', path = ''/country/Israel/Negev/'',
             params = [], query = [], fragment = []\<rparr>"
  by code_simp

lemma join_israel_self: "urljoin py israel ''/country/Israel/'' = Inr israel"
  unfolding israel_def by code_simp

lemma join_Niger:
  "urljoin py ''https://wikimapia.org/country/Niger'' ''/country/Nigeria/''
     = Inr ''https://wikimapia.org/country/Nigeria/''"
  by code_simp

lemma parse_Niger:
  "urlparse py ''https://wikimapia.org/country/Niger''
     = Inr \<lparr>scheme = ''https'', netloc = ''wikimapia.org'', path = ''/country/Niger'',
             params = [], query = [], fragment = []\<rparr>"
  by code_simp

lemma parse_Nigeria:
  "urlparse py ''https://wikimapia.org/country/Nigeria/''
     = Inr \<lparr>scheme = ''https'', netloc = ''wikimapia.org'', path = ''/country/Nigeria/'',
             params = [], query = [], fragment = []\<rparr>"
  by code_simp

lemma map_point: "get_point_from_map_url py n (Some map_href)
     = Some \<lparr>oid = n, lon = - 170.649948, lat = - 14.260057\<rparr>"
  unfolding map_href_def by (rule example_point)

text \<open>Which of the joined URLs \<^verbatim>\<open>is_base_url\<close> accepts for the page of \<open>israel\<close>.\<close>

lemma base_israel:
  "is_base_url py arad israel = Inr False"
  "is_base_url py ''https://wikimapia.org/#lang=en&lat=-14.260057&lon=-170.649948&z=13&m=w'' israel
     = Inr False"
  "is_base_url py ''https://wikimapia.org/country/Israel/Arad/'' israel = Inr True"
  "is_base_url py ''https://wikimapia.org/country/Israel/Negev/'' israel = Inr True"
  "is_base_url py israel israel = Inr True"
  by (simp_all add: is_base_url_def parse_arad parse_israel parse_israel_map parse_israel_Arad
        parse_israel_Negev)

lemmas url_defs = israel_def arad_def map_href_def map_anchor_def

lemmas lib_facts =
  parse_arad[unfolded url_defs] parse_israel[unfolded url_defs]
  join_israel_arad[unfolded url_defs] join_israel_map[unfolded url_defs] parse_israel_map
  join_israel_Arad[unfolded url_defs] parse_israel_Arad join_Arad_Arad
  join_israel_Negev[unfolded url_defs] parse_israel_Negev join_israel_self[unfolded url_defs]
  base_israel[unfolded url_defs] map_point[unfolded url_defs]

lemmas eval_defs =
  exec_def start_pool_def new_crawler_def add_url_to_visit_def contains_def put_def get_def
  empty_queue_def download_html_def handle_page_def crawl_page_def mark_done_def task_done_def
  add_geo_location_def urljoin_href_def GeoLocation_eq_def GeoPoint_eq_def crawl_def
  insert_Diff_if

lemma crawl_one_pair_twice:
  "crawl py one_pair_site
       (fst (crawl py one_pair_site (new_crawler WIKIMAPIA_START_URL 1) israel)) israel
     = ((new_crawler WIKIMAPIA_START_URL 1)
          \<lparr>requested := [israel, israel], next_oid := 2,
           geo_locations := [\<lparr>url = arad,
                               points = [\<lparr>oid = 0, lon = - 170.649948, lat = - 14.260057\<rparr>],
                               data = [''name'' \<mapsto> ''Arad'']\<rparr>,
                             \<lparr>url = arad,
                               points = [\<lparr>oid = 1, lon = - 170.649948, lat = - 14.260057\<rparr>],
                               data = [''name'' \<mapsto> ''Arad'']\<rparr>]\<rparr>, None)"
  unfolding url_defs
  by (simp add: eval_defs one_pair_site_def no_page_def lib_facts url_defs)

lemma self_link_3:
  "exec py self_link_site (start_pool (add_url_to_visit (new_crawler WIKIMAPIA_START_URL 1) israel))
     [Get 0, Complete 0, Get 0]
   = \<lparr>crawler = \<lparr>start_url = WIKIMAPIA_START_URL,
         urls_to_visit = \<lparr>items = [israel], unfinished_tasks = 2, set_data = {israel}\<rparr>,
         visited_urls = {israel},
         geo_locations = [\<lparr>url = arad,
                            points = [\<lparr>oid = 0, lon = - 170.649948, lat = - 14.260057\<rparr>],
                            data = [''name'' \<mapsto> ''Arad'']\<rparr>],
         workers_num = 1,
         requested = [israel, ''https://wikimapia.org/country/Israel/Negev/''],
         next_oid = 1\<rparr>,
      handlers = [AwaitDownload ''https://wikimapia.org/country/Israel/Negev/'']\<rparr>"
  unfolding url_defs
  by (simp add: eval_defs self_link_site_def no_page_def lib_facts url_defs)

lemma exec_append: "exec L web P (evs @ evs') = exec L web (exec L web P evs) evs'"
  by (simp add: exec_def)

lemma self_link_6:
  "exec py self_link_site (start_pool (add_url_to_visit (new_crawler WIKIMAPIA_START_URL 1) israel))
     [Get 0, Complete 0, Get 0, Complete 0, Get 0, Complete 0]
   = \<lparr>crawler = \<lparr>start_url = WIKIMAPIA_START_URL,
         urls_to_visit = \<lparr>items = [], unfinished_tasks = 0, set_data = {}\<rparr>,
         visited_urls = {israel, ''https://wikimapia.org/country/Israel/Negev/''},
         geo_locations = [\<lparr>url = arad,
                            points = [\<lparr>oid = 0, lon = - 170.649948, lat = - 14.260057\<rparr>],
                            data = [''name'' \<mapsto> ''Arad'']\<rparr>,
                          \<lparr>url = arad,
                            points = [\<lparr>oid = 1, lon = - 170.649948, lat = - 14.260057\<rparr>],
                            data = [''name'' \<mapsto> ''Arad'']\<rparr>],
         workers_num = 1,
         requested = [israel, ''https://wikimapia.org/country/Israel/Negev/'', israel],
         next_oid = 2\<rparr>,
      handlers = [AwaitGet]\<rparr>"
proof -
  have "[Get 0, Complete 0, Get 0, Complete 0, Get 0, Complete 0]
      = [Get 0, Complete 0, Get 0] @ [Complete 0, Get 0, Complete 0]" by simp
  then show ?thesis
    unfolding exec_append[symmetric, of _ _ _ "[Get 0, Complete 0, Get 0]"]
    apply (simp only: exec_append self_link_3)
    unfolding url_defs
    by (simp add: eval_defs self_link_site_def no_page_def lib_facts url_defs insert_commute)
qed


lemma crawl_relative:
  "crawl py relative_site (new_crawler WIKIMAPIA_START_URL 1) israel
     = ((new_crawler WIKIMAPIA_START_URL 1)
          \<lparr>urls_to_visit := put empty_queue ''https://wikimapia.org/country/Israel/Arad/'',
           requested := [israel], next_oid := 1,
           geo_locations := [\<lparr>url = ''https://wikimapia.org/country/Israel/Arad/Arad/'',
                               points = [\<lparr>oid = 0, lon = - 170.649948, lat = - 14.260057\<rparr>],
                               data = [''name'' \<mapsto> ''Arad'']\<rparr>]\<rparr>, None)"
  unfolding url_defs
  by (simp add: eval_defs relative_site_def no_page_def lib_facts url_defs)

subsection \<open>What the link scan yields\<close>

lemma get_linked_urls_base:
  "x \<in> set (fst (get_linked_urls L u hs)) \<Longrightarrow> is_base_url L x u = Inr True"
  by (induction hs) (auto split: if_splits sum.splits bool.splits prod.splits)

lemma is_base_url_True:
  "is_base_url L x u = Inr True \<Longrightarrow>
     \<exists>p q. urlparse L x = Inr p \<and> urlparse L u = Inr q \<and> netloc p = netloc q
           \<and> prefix (path q) (path p)"
  by (auto simp: is_base_url_def split: sum.splits)

subsection \<open>The invariant of the pool\<close>

lemma add_url_to_visit_fields [simp]:
  "visited_urls (add_url_to_visit c u) = visited_urls c"
  "geo_locations (add_url_to_visit c u) = geo_locations c"
  "next_oid (add_url_to_visit c u) = next_oid c"
  by (simp_all add: add_url_to_visit_def)

lemma add_url_to_visit_queue_ok:
  "queue_ok (urls_to_visit c) \<Longrightarrow> queue_ok (urls_to_visit (add_url_to_visit c u))"
  by (auto simp: add_url_to_visit_def queue_ok_def put_def contains_def)

lemma add_url_to_visit_count:
  "unfinished_tasks (urls_to_visit c) = length (items (urls_to_visit c)) + n \<Longrightarrow>
   unfinished_tasks (urls_to_visit (add_url_to_visit c u))
     = length (items (urls_to_visit (add_url_to_visit c u))) + n"
  by (auto simp: add_url_to_visit_def put_def)

lemma foldl_add_url_fields [simp]:
  "visited_urls (foldl add_url_to_visit c us) = visited_urls c"
  "geo_locations (foldl add_url_to_visit c us) = geo_locations c"
  "next_oid (foldl add_url_to_visit c us) = next_oid c"
  by (induction us arbitrary: c) simp_all

lemma foldl_add_url_queue_ok:
  "queue_ok (urls_to_visit c) \<Longrightarrow> queue_ok (urls_to_visit (foldl add_url_to_visit c us))"
  by (induction us arbitrary: c) (simp_all add: add_url_to_visit_queue_ok)

lemma foldl_add_url_count:
  "unfinished_tasks (urls_to_visit c) = length (items (urls_to_visit c)) + n \<Longrightarrow>
   unfinished_tasks (urls_to_visit (foldl add_url_to_visit c us))
     = length (items (urls_to_visit (foldl add_url_to_visit c us))) + n"
  by (induction us arbitrary: c) (simp_all add: add_url_to_visit_count)

lemma add_geo_location_fields [simp]:
  "urls_to_visit (add_geo_location c g) = urls_to_visit c"
  "visited_urls (add_geo_location c g) = visited_urls c"
  by (simp_all add: add_geo_location_def)

lemma add_geo_location_prefix: "prefix (geo_locations c) (geo_locations (add_geo_location c g))"
  by (simp add: add_geo_location_def)

lemma foldl_add_geo_fields [simp]:
  "urls_to_visit (foldl add_geo_location c gs) = urls_to_visit c"
  "visited_urls (foldl add_geo_location c gs) = visited_urls c"
  by (induction gs arbitrary: c) simp_all

lemma foldl_add_geo_prefix:
  "prefix (geo_locations c) (geo_locations (foldl add_geo_location c gs))"
proof (induction gs arbitrary: c)
  case Nil
  then show ?case by simp
next
  case (Cons g gs)
  have "prefix (geo_locations c) (geo_locations (add_geo_location c g))"
    by (rule add_geo_location_prefix)
  also have "prefix \<dots> (geo_locations (foldl add_geo_location (add_geo_location c g) gs))"
    by (rule Cons.IH)
  finally show ?case by simp
qed


lemma crawl_page_effect:
  assumes "crawl_page L c u res = (c1, e)"
  shows "visited_urls c1 = visited_urls c"
    and "prefix (geo_locations c) (geo_locations c1)"
    and "queue_ok (urls_to_visit c) \<Longrightarrow> queue_ok (urls_to_visit c1)"
    and "unfinished_tasks (urls_to_visit c) = length (items (urls_to_visit c)) + n \<Longrightarrow>
         unfinished_tasks (urls_to_visit c1) = length (items (urls_to_visit c1)) + n"
proof -
  show "visited_urls c1 = visited_urls c"
    using assms
    by (auto simp: crawl_page_def Let_def split: sum.splits prod.splits option.splits)
  show "prefix (geo_locations c) (geo_locations c1)"
  proof (cases res)
    case (Inl x)
    with assms show ?thesis by (simp add: crawl_page_def)
  next
    case (Inr soup)
    obtain links e1 where l: "get_linked_urls L u (find_all_a_href soup) = (links, e1)"
      by (cases "get_linked_urls L u (find_all_a_href soup)")
    let ?c1 = "foldl add_url_to_visit c links"
    show ?thesis
    proof (cases e1)
      case (Some x)
      with assms Inr l show ?thesis by (auto simp: crawl_page_def)
    next
      case None
      obtain locs e2 n' where g: "get_geo_locations L (if links = [] then u else last links)
          (find_all_li soup) (next_oid ?c1) = (locs, e2, n')"
        by (cases "get_geo_locations L (if links = [] then u else last links)
          (find_all_li soup) (next_oid ?c1)")
      have "c1 = foldl add_geo_location (?c1\<lparr>next_oid := n'\<rparr>) locs"
        using assms Inr l None g by (simp add: crawl_page_def Let_def)
      moreover have "prefix (geo_locations (?c1\<lparr>next_oid := n'\<rparr>))
          (geo_locations (foldl add_geo_location (?c1\<lparr>next_oid := n'\<rparr>) locs))"
        by (rule foldl_add_geo_prefix)
      ultimately show ?thesis by simp
    qed
  qed
  show "queue_ok (urls_to_visit c1)" if "queue_ok (urls_to_visit c)"
    using assms that
    by (auto simp: crawl_page_def Let_def foldl_add_url_queue_ok
        split: sum.splits prod.splits option.splits)
  show "unfinished_tasks (urls_to_visit c1) = length (items (urls_to_visit c1)) + n"
    if "unfinished_tasks (urls_to_visit c) = length (items (urls_to_visit c)) + n"
    using assms that
    by (auto simp: crawl_page_def Let_def foldl_add_url_count
        split: sum.splits prod.splits option.splits)
qed

text \<open>Counting the handlers that are downloading.\<close>

lemma count_start_download:
  "w < length hs \<Longrightarrow> \<not> downloading (hs ! w) \<Longrightarrow>
   length (filter downloading (hs[w := AwaitDownload u])) = Suc (length (filter downloading hs))"
  by (induction hs arbitrary: w) (auto split: nat.splits)

lemma count_end_download:
  "w < length hs \<Longrightarrow> downloading (hs ! w) \<Longrightarrow> \<not> downloading t \<Longrightarrow>
   Suc (length (filter downloading (hs[w := t]))) = length (filter downloading hs)"
  by (induction hs arbitrary: w) (auto split: nat.splits)

lemma set_update_not_failed:
  "\<forall>t \<in> set hs. \<not> failed t \<Longrightarrow> \<not> failed t' \<Longrightarrow> \<forall>t \<in> set (hs[w := t']). \<not> failed t"
  by (metis insertE set_update_subset_insert subsetD)

lemma step_pool_inv:
  assumes "pool_inv P"
  shows "pool_inv (step L web P ev)"
proof (cases ev)
  case (Get w)
  let ?q = "urls_to_visit (crawler P)"
  show ?thesis
  proof (cases "w < length (handlers P) \<and> handlers P ! w = AwaitGet")
    case False
    with Get assms show ?thesis by auto
  next
    case True
    show ?thesis
    proof (cases "items ?q")
      case Nil
      with Get True assms show ?thesis by (simp add: get_def)
    next
      case (Cons item rest)
      have q: "set_data ?q = set (items ?q)" "distinct (items ?q)"
        using assms by (simp_all add: pool_inv_def queue_ok_def)
      have mem: "item \<in> set_data ?q" using q Cons by simp
      have g: "get ?q = (Returns item, ?q\<lparr>items := rest, set_data := set_data ?q - {item}\<rparr>)"
        using Cons mem by (simp add: get_def)
      have nd: "\<not> downloading (handlers P ! w)" using True by simp
      have cnt: "length (filter downloading ((handlers P)[w := AwaitDownload item]))
          = Suc (length (filter downloading (handlers P)))"
        using True nd by (simp add: count_start_download)
      have nf: "\<forall>t \<in> set ((handlers P)[w := AwaitDownload item]). \<not> failed t"
        using assms by (intro set_update_not_failed) (simp_all add: pool_inv_def)
      have qok: "queue_ok (?q\<lparr>items := rest, set_data := set_data ?q - {item}\<rparr>)"
        using q Cons by (auto simp: queue_ok_def)
      have un: "unfinished_tasks ?q = length (items ?q) + length (filter downloading (handlers P))"
        using assms by (simp add: pool_inv_def)
      show ?thesis
        using Get True g cnt nf qok un Cons
        by (simp add: pool_inv_def download_html_def)
    qed
  qed
next
  case (Complete w)
  show ?thesis
  proof (cases "w < length (handlers P)")
    case False
    with Complete assms show ?thesis by simp
  next
    case True
    show ?thesis
    proof (cases "handlers P ! w")
      case AwaitGet
      with Complete True assms show ?thesis by simp
    next
      case (Failed e)
      with Complete True assms show ?thesis by simp
    next
      case (AwaitDownload u)
      obtain c1 e where cp: "crawl_page L (crawler P) u (web u) = (c1, e)"
        by (cases "crawl_page L (crawler P) u (web u)")
      let ?k = "length (filter downloading (handlers P))"
      have d: "downloading (handlers P ! w)" using AwaitDownload by simp
      have cnt: "Suc (length (filter downloading ((handlers P)[w := AwaitGet]))) = ?k"
        using True d by (simp add: count_end_download)
      have qok: "queue_ok (urls_to_visit c1)"
        using crawl_page_effect(3)[OF cp] assms by (simp add: pool_inv_def)
      have un: "unfinished_tasks (urls_to_visit c1) = length (items (urls_to_visit c1)) + ?k"
        using crawl_page_effect(4)[OF cp] assms by (simp add: pool_inv_def)
      have pos: "0 < unfinished_tasks (urls_to_visit c1)" using un cnt by arith
      have nf: "\<forall>t \<in> set ((handlers P)[w := AwaitGet]). \<not> failed t"
        using assms by (intro set_update_not_failed) (simp_all add: pool_inv_def)
      have st: "step L web P ev
          = \<lparr>crawler = c1\<lparr>visited_urls := insert u (visited_urls c1),
                          urls_to_visit := (urls_to_visit c1)
                            \<lparr>unfinished_tasks := unfinished_tasks (urls_to_visit c1) - 1\<rparr>\<rparr>,
             handlers = (handlers P)[w := AwaitGet]\<rparr>"
        using Complete True AwaitDownload cp pos
        by (simp add: handle_page_def mark_done_def task_done_def Let_def)
      show ?thesis
        unfolding st pool_inv_def using qok un cnt nf
        by (auto simp: queue_ok_def)
    qed
  qed
qed



text \<open>The handling of a page in a pool that satisfies the invariant.\<close>

lemma complete_effect:
  assumes "pool_inv P" "w < length (handlers P)" "handlers P ! w = AwaitDownload u"
    and cp: "crawl_page L (crawler P) u (web u) = (c1, e)"
  shows "0 < unfinished_tasks (urls_to_visit c1)"
    and "step L web P (Complete w)
          = \<lparr>crawler = c1\<lparr>visited_urls := insert u (visited_urls c1),
                          urls_to_visit := (urls_to_visit c1)
                            \<lparr>unfinished_tasks := unfinished_tasks (urls_to_visit c1) - 1\<rparr>\<rparr>,
             handlers = (handlers P)[w := AwaitGet]\<rparr>"
proof -
  let ?k = "length (filter downloading (handlers P))"
  have d: "downloading (handlers P ! w)" using assms(3) by simp
  have cnt: "Suc (length (filter downloading ((handlers P)[w := AwaitGet]))) = ?k"
    using assms(2) d by (simp add: count_end_download)
  have un: "unfinished_tasks (urls_to_visit c1) = length (items (urls_to_visit c1)) + ?k"
    using crawl_page_effect(4)[OF cp] assms(1) by (simp add: pool_inv_def)
  show pos: "0 < unfinished_tasks (urls_to_visit c1)" using un cnt by arith
  show "step L web P (Complete w)
          = \<lparr>crawler = c1\<lparr>visited_urls := insert u (visited_urls c1),
                          urls_to_visit := (urls_to_visit c1)
                            \<lparr>unfinished_tasks := unfinished_tasks (urls_to_visit c1) - 1\<rparr>\<rparr>,
             handlers = (handlers P)[w := AwaitGet]\<rparr>"
    using assms(2,3) cp pos
    by (simp add: handle_page_def mark_done_def task_done_def Let_def)
qed


subsection \<open>Enrichment keeps the points\<close>

lemma location_handler_points [simp]: "points (location_handler L web g) = points g"
  by (simp add: location_handler_def split: sum.splits bool.splits)


text \<open>A handler that has ended with an exception takes no further step.\<close>

lemma failed_handler_stays:
  "handlers P = [Failed e] \<Longrightarrow> exec L web P evs = P"
proof (induction evs)
  case Nil
  then show ?case by (simp add: exec_def)
next
  case (Cons ev evs)
  have "step L web P ev = P" using Cons.prems by (cases ev) auto
  with Cons show ?case by (simp add: exec_def)
qed

subsection \<open>The locations of a page reach the store\<close>

lemma get_point_oid: "get_point_from_map_url L n m = Some p \<Longrightarrow> oid p = n"
  using point_only_if[of L n m p] by blast

lemma get_geo_locations_fresh:
  "get_geo_locations L u lis n = (locs, e, n') \<Longrightarrow> fresh_from n locs \<and> n' = n + length locs"
proof (induction lis arbitrary: n locs e n')
  case Nil
  then show ?case by simp
next
  case (Cons a_tags lis)
  show ?case
  proof (cases "length a_tags = 2 \<and> tag_text (a_tags ! 1) = ''map''")
    case False
    with Cons show ?thesis by auto
  next
    case True
    show ?thesis
    proof (cases "urljoin_href L u (href (a_tags ! 0))")
      case (Inl x)
      with True Cons.prems show ?thesis by auto
    next
      case (Inr full)
      show ?thesis
      proof (cases "get_point_from_map_url L n (href (a_tags ! 1))")
        case None
        with True Inr Cons show ?thesis by auto
      next
        case (Some p)
        obtain ys e1 n1 where r: "get_geo_locations L u lis (Suc n) = (ys, e1, n1)"
          by (cases "get_geo_locations L u lis (Suc n)")
        from Cons.IH[OF r] have ih: "fresh_from (Suc n) ys" "n1 = Suc n + length ys" by auto
        have "oid p = n" using Some by (rule get_point_oid)
        with True Inr Some r ih Cons.prems show ?thesis by auto
      qed
    qed
  qed
qed

lemma fresh_from_bound:
  "fresh_from n locs \<Longrightarrow> g \<in> set locs \<Longrightarrow>
     points g \<noteq> [] \<and> (\<forall>p \<in> set (points g). oid p < n + length locs)"
proof (induction locs arbitrary: n)
  case Nil
  then show ?case by simp
next
  case (Cons x xs)
  show ?case
  proof (cases "g = x")
    case True
    with Cons.prems show ?thesis by auto
  next
    case False
    with Cons.prems have "g \<in> set xs" "fresh_from (Suc n) xs" by auto
    from Cons.IH[OF this(2) this(1)] show ?thesis by auto
  qed
qed

lemma fresh_not_in_store:
  assumes "points g = [p]" "\<forall>x \<in> set xs. \<forall>q \<in> set (points x). oid q < oid p"
  shows "\<not> list_ex (GeoLocation_eq g) xs"
proof
  assume "list_ex (GeoLocation_eq g) xs"
  then obtain x where x: "x \<in> set xs" "GeoLocation_eq g x" by (auto simp: list_ex_iff)
  then have "list_all2 GeoPoint_eq [p] (points x)" using assms(1) by (simp add: GeoLocation_eq_def)
  then obtain q where "points x = [q]" "GeoPoint_eq p q"
    by (auto simp: list_all2_Cons1)
  then have "q \<in> set (points x)" "oid q = oid p" by (simp_all add: GeoPoint_eq_def)
  with assms(2) x(1) show False by fastforce
qed

lemma foldl_add_fresh:
  "fresh_from n locs \<Longrightarrow> \<forall>x \<in> set (geo_locations c). \<forall>q \<in> set (points x). oid q < n \<Longrightarrow>
     geo_locations (foldl add_geo_location c locs) = geo_locations c @ locs"
proof (induction locs arbitrary: n c)
  case Nil
  then show ?case by simp
next
  case (Cons g gs)
  from Cons.prems(1) obtain p where p: "points g = [p]" "oid p = n" and f: "fresh_from (Suc n) gs"
    by auto
  have "\<not> list_ex (GeoLocation_eq g) (geo_locations c)"
    using p Cons.prems(2) by (intro fresh_not_in_store[of g p]) auto
  then have a: "geo_locations (add_geo_location c g) = geo_locations c @ [g]"
    using p by (simp add: add_geo_location_def)
  have "\<forall>x \<in> set (geo_locations (add_geo_location c g)). \<forall>q \<in> set (points x). oid q < Suc n"
    unfolding a using Cons.prems(2) p by (auto simp: less_Suc_eq)
  from Cons.IH[OF f this] a show ?case by simp
qed

lemma add_geo_location_next_oid [simp]: "next_oid (add_geo_location c g) = next_oid c"
  by (simp add: add_geo_location_def)

lemma foldl_add_geo_next_oid [simp]: "next_oid (foldl add_geo_location c gs) = next_oid c"
  by (induction gs arbitrary: c) simp_all

lemma crawl_page_store:
  assumes sf: "store_fresh c" and cp: "crawl_page L c u res = (c1, e)"
  shows "store_fresh c1"
    and "res = Inr soup \<Longrightarrow> get_linked_urls L u (find_all_a_href soup) = (links, None) \<Longrightarrow>
         set (fst (get_geo_locations L (if links = [] then u else last links)
                     (find_all_li soup) (next_oid c))) \<subseteq> set (geo_locations c1)"
proof -
  have both: "store_fresh c1 \<and> (\<forall>soup links.
      res = Inr soup \<and> get_linked_urls L u (find_all_a_href soup) = (links, None) \<longrightarrow>
         set (fst (get_geo_locations L (if links = [] then u else last links)
                     (find_all_li soup) (next_oid c))) \<subseteq> set (geo_locations c1))"
  proof (cases res)
    case (Inl x)
    with cp sf show ?thesis by (simp add: crawl_page_def)
  next
    case (Inr sp)
    obtain ls e1 where l: "get_linked_urls L u (find_all_a_href sp) = (ls, e1)"
      by (cases "get_linked_urls L u (find_all_a_href sp)")
    let ?c1 = "foldl add_url_to_visit c ls"
    show ?thesis
    proof (cases e1)
      case (Some x)
      with cp Inr l have "c1 = ?c1" by (simp add: crawl_page_def)
      with sf Some l Inr show ?thesis by (auto simp: store_fresh_def)
    next
      case None
      let ?b = "if ls = [] then u else last ls"
      obtain locs e2 n' where g: "get_geo_locations L ?b (find_all_li sp) (next_oid c) = (locs, e2, n')"
        by (cases "get_geo_locations L ?b (find_all_li sp) (next_oid c)")
      from get_geo_locations_fresh[OF g] have fr: "fresh_from (next_oid c) locs"
        and n': "n' = next_oid c + length locs" by auto
      have c1: "c1 = foldl add_geo_location (?c1\<lparr>next_oid := n'\<rparr>) locs"
        using cp Inr l None g by (simp add: crawl_page_def Let_def)
      have old: "\<forall>x \<in> set (geo_locations (?c1\<lparr>next_oid := n'\<rparr>)). \<forall>q \<in> set (points x). oid q < next_oid c"
        using sf by (simp add: store_fresh_def)
      have st: "geo_locations c1 = geo_locations c @ locs"
        unfolding c1 using foldl_add_fresh[OF fr old] by simp
      have no: "next_oid c1 = n'" unfolding c1 by simp
      have "store_fresh c1"
        unfolding store_fresh_def st no n'
        using sf fresh_from_bound[OF fr] by (fastforce simp: store_fresh_def)
      moreover have "set (fst (get_geo_locations L ?b (find_all_li sp) (next_oid c)))
          \<subseteq> set (geo_locations c1)"
        using g st by simp
      ultimately show ?thesis using Inr l None by auto
    qed
  qed
  from both show "store_fresh c1" by simp
  from both show "res = Inr soup \<Longrightarrow> get_linked_urls L u (find_all_a_href soup) = (links, None) \<Longrightarrow>
         set (fst (get_geo_locations L (if links = [] then u else last links)
                     (find_all_li soup) (next_oid c))) \<subseteq> set (geo_locations c1)"
    by blast
qed

subsection \<open>The links of a page reach the queue\<close>

lemma add_url_to_visit_set_data:
  "set_data (urls_to_visit c) \<subseteq> set_data (urls_to_visit (add_url_to_visit c u))"
  "u \<in> set_data (urls_to_visit (add_url_to_visit c u)) \<union> visited_urls c"
  by (auto simp: add_url_to_visit_def put_def contains_def)

lemma foldl_add_url_set_data:
  "set_data (urls_to_visit c) \<subseteq> set_data (urls_to_visit (foldl add_url_to_visit c us))"
  "set us \<subseteq> set_data (urls_to_visit (foldl add_url_to_visit c us)) \<union> visited_urls c"
proof (induction us arbitrary: c)
  case Nil
  { case 1 show ?case by simp }
  { case 2 show ?case by simp }
next
  case (Cons a us)
  { case 1
    show ?case using add_url_to_visit_set_data(1)[of c a] Cons(1)[of "add_url_to_visit c a"]
      by auto }
  { case 2
    show ?case
      using add_url_to_visit_set_data(2)[of a c] Cons(1)[of "add_url_to_visit c a"]
        Cons(2)[of "add_url_to_visit c a"]
      by auto }
qed

lemma crawl_page_links:
  assumes "crawl_page L c u res = (c1, e)"
  shows "set_data (urls_to_visit c) \<subseteq> set_data (urls_to_visit c1)"
    and "res = Inr soup \<Longrightarrow>
         set (fst (get_linked_urls L u (find_all_a_href soup)))
           \<subseteq> set_data (urls_to_visit c1) \<union> visited_urls c"
proof -
  show "set_data (urls_to_visit c) \<subseteq> set_data (urls_to_visit c1)"
  proof (cases res)
    case (Inl x)
    with assms show ?thesis by (simp add: crawl_page_def)
  next
    case (Inr sp)
    obtain ls e1 where l: "get_linked_urls L u (find_all_a_href sp) = (ls, e1)"
      by (cases "get_linked_urls L u (find_all_a_href sp)")
    have "urls_to_visit c1 = urls_to_visit (foldl add_url_to_visit c ls)"
      using assms Inr l
      by (auto simp: crawl_page_def Let_def split: prod.splits option.splits)
    then show ?thesis
      using foldl_add_url_set_data(1)[of c ls] by simp
  qed
  show "set (fst (get_linked_urls L u (find_all_a_href soup)))
           \<subseteq> set_data (urls_to_visit c1) \<union> visited_urls c" if "res = Inr soup"
  proof -
    obtain ls e1 where l: "get_linked_urls L u (find_all_a_href soup) = (ls, e1)"
      by (cases "get_linked_urls L u (find_all_a_href soup)")
    have "urls_to_visit c1 = urls_to_visit (foldl add_url_to_visit c ls)"
      using assms that l
      by (auto simp: crawl_page_def Let_def split: prod.splits option.splits)
    then show ?thesis
      using foldl_add_url_set_data(2)[of ls c] l by simp
  qed
qed

lemma crawl_page_appends:
  assumes sf: "store_fresh c" and cp: "crawl_page L c u (Inr soup) = (c1, e)"
    and l: "get_linked_urls L u (find_all_a_href soup) = (links, None)"
  shows "geo_locations c1 = geo_locations c
           @ fst (get_geo_locations L (if links = [] then u else last links)
                    (find_all_li soup) (next_oid c))"
proof -
  let ?c1 = "foldl add_url_to_visit c links"
  let ?b = "if links = [] then u else last links"
  obtain locs e2 n' where g: "get_geo_locations L ?b (find_all_li soup) (next_oid c) = (locs, e2, n')"
    by (cases "get_geo_locations L ?b (find_all_li soup) (next_oid c)")
  from get_geo_locations_fresh[OF g] have fr: "fresh_from (next_oid c) locs" by simp
  have c1: "c1 = foldl add_geo_location (?c1\<lparr>next_oid := n'\<rparr>) locs"
    using cp l g by (simp add: crawl_page_def Let_def)
  have old: "\<forall>x \<in> set (geo_locations (?c1\<lparr>next_oid := n'\<rparr>)). \<forall>q \<in> set (points x). oid q < next_oid c"
    using sf by (simp add: store_fresh_def)
  show ?thesis
    unfolding c1 using foldl_add_fresh[OF fr old] g by simp
qed

subsection \<open>The invariant of the crawl\<close>

lemma in_flight_kept:
  assumes "AwaitDownload v \<in> set hs" "hs ! w \<noteq> AwaitDownload v"
  shows "AwaitDownload v \<in> set (hs[w := t])"
proof -
  from assms(1) obtain i where i: "i < length hs" "hs ! i = AwaitDownload v"
    by (auto simp: in_set_conv_nth)
  with assms(2) have "i \<noteq> w" by auto
  with i have "(hs[w := t]) ! i = AwaitDownload v" "i < length (hs[w := t])" by simp_all
  then show ?thesis by (metis nth_mem)
qed

lemma get_step_cases:
  assumes "pool_inv P"
  shows "step L web P (Get w) = P
    \<or> (\<exists>item. handlers P ! w = AwaitGet
          \<and> item \<in> set_data (urls_to_visit (crawler P))
          \<and> set_data (urls_to_visit (crawler (step L web P (Get w))))
               = set_data (urls_to_visit (crawler P)) - {item}
          \<and> visited_urls (crawler (step L web P (Get w))) = visited_urls (crawler P)
          \<and> geo_locations (crawler (step L web P (Get w))) = geo_locations (crawler P)
          \<and> next_oid (crawler (step L web P (Get w))) = next_oid (crawler P)
          \<and> handlers (step L web P (Get w)) = (handlers P)[w := AwaitDownload item]
          \<and> w < length (handlers P))"
proof (cases "w < length (handlers P) \<and> handlers P ! w = AwaitGet")
  case False
  then show ?thesis by auto
next
  case True
  let ?q = "urls_to_visit (crawler P)"
  show ?thesis
  proof (cases "items ?q")
    case Nil
    with True show ?thesis by (simp add: get_def)
  next
    case (Cons item rest)
    have "set_data ?q = set (items ?q)" using assms by (simp add: pool_inv_def queue_ok_def)
    with Cons have mem: "item \<in> set_data ?q" by simp
    have st: "step L web P (Get w)
        = \<lparr>crawler = snd (download_html web
              ((crawler P)\<lparr>urls_to_visit := ?q\<lparr>items := rest, set_data := set_data ?q - {item}\<rparr>\<rparr>)
              item),
           handlers = (handlers P)[w := AwaitDownload item]\<rparr>"
      using True Cons mem by (simp add: get_def)
    have "handlers P ! w = AwaitGet
          \<and> item \<in> set_data (urls_to_visit (crawler P))
          \<and> set_data (urls_to_visit (crawler (step L web P (Get w))))
               = set_data (urls_to_visit (crawler P)) - {item}
          \<and> visited_urls (crawler (step L web P (Get w))) = visited_urls (crawler P)
          \<and> geo_locations (crawler (step L web P (Get w))) = geo_locations (crawler P)
          \<and> next_oid (crawler (step L web P (Get w))) = next_oid (crawler P)
          \<and> handlers (step L web P (Get w)) = (handlers P)[w := AwaitDownload item]
          \<and> w < length (handlers P)"
      unfolding st using True mem by (simp add: download_html_def)
    then show ?thesis by blast
  qed
qed

lemma complete_step_cases:
  assumes "pool_inv P"
  shows "step L web P (Complete w) = P
    \<or> (\<exists>u c1 e. w < length (handlers P) \<and> handlers P ! w = AwaitDownload u
          \<and> crawl_page L (crawler P) u (web u) = (c1, e)
          \<and> step L web P (Complete w)
              = \<lparr>crawler = c1\<lparr>visited_urls := insert u (visited_urls c1),
                              urls_to_visit := (urls_to_visit c1)
                                \<lparr>unfinished_tasks := unfinished_tasks (urls_to_visit c1) - 1\<rparr>\<rparr>,
                 handlers = (handlers P)[w := AwaitGet]\<rparr>)"
proof (cases "w < length (handlers P)")
  case False
  then show ?thesis by simp
next
  case True
  show ?thesis
  proof (cases "handlers P ! w")
    case AwaitGet
    with True show ?thesis by simp
  next
    case (Failed x)
    with True show ?thesis by simp
  next
    case (AwaitDownload u)
    obtain c1 e where cp: "crawl_page L (crawler P) u (web u) = (c1, e)"
      by (cases "crawl_page L (crawler P) u (web u)")
    from complete_effect(2)[where web = web and L = L and u = u, OF assms True AwaitDownload cp]
    show ?thesis using True AwaitDownload cp by blast
  qed
qed

lemma step_crawl_inv:
  assumes "crawl_inv L web seed P"
  shows "crawl_inv L web seed (step L web P ev)"
proof -
  have inv: "pool_inv P" and sk: "seed \<in> known P" and lk: "links_known L web P"
    and hv: "harvested L web (crawler P)" and sf: "store_fresh (crawler P)"
    using assms by (simp_all add: crawl_inv_def)
  have inv': "pool_inv (step L web P ev)" using inv by (rule step_pool_inv)
  have rest: "known P \<subseteq> known (step L web P ev)
      \<and> links_known L web (step L web P ev)
      \<and> harvested L web (crawler (step L web P ev))
      \<and> store_fresh (crawler (step L web P ev))"
  proof (cases ev)
    case (Get w)
    from get_step_cases[OF inv, of L web w]
    show ?thesis
    proof
      assume "step L web P (Get w) = P"
      with Get lk hv sf show ?thesis by simp
    next
      assume "\<exists>item. handlers P ! w = AwaitGet
          \<and> item \<in> set_data (urls_to_visit (crawler P))
          \<and> set_data (urls_to_visit (crawler (step L web P (Get w))))
               = set_data (urls_to_visit (crawler P)) - {item}
          \<and> visited_urls (crawler (step L web P (Get w))) = visited_urls (crawler P)
          \<and> geo_locations (crawler (step L web P (Get w))) = geo_locations (crawler P)
          \<and> next_oid (crawler (step L web P (Get w))) = next_oid (crawler P)
          \<and> handlers (step L web P (Get w)) = (handlers P)[w := AwaitDownload item]
          \<and> w < length (handlers P)"
      then obtain item where g: "handlers P ! w = AwaitGet"
          "set_data (urls_to_visit (crawler (step L web P (Get w))))
               = set_data (urls_to_visit (crawler P)) - {item}"
          "visited_urls (crawler (step L web P (Get w))) = visited_urls (crawler P)"
          "geo_locations (crawler (step L web P (Get w))) = geo_locations (crawler P)"
          "next_oid (crawler (step L web P (Get w))) = next_oid (crawler P)"
          "handlers (step L web P (Get w)) = (handlers P)[w := AwaitDownload item]"
          "w < length (handlers P)"
        by blast
      have new: "AwaitDownload item \<in> set ((handlers P)[w := AwaitDownload item])"
        using g(7) by (simp add: set_update_memI)
      have kept: "AwaitDownload v \<in> set ((handlers P)[w := AwaitDownload item])"
        if "AwaitDownload v \<in> set (handlers P)" for v
        using that g(1) by (intro in_flight_kept) simp_all
      have k: "known P \<subseteq> known (step L web P (Get w))"
        unfolding known_def g(2,3,6) using new kept by auto
      have l: "links_known L web (step L web P (Get w))"
        using lk k unfolding links_known_def g(3) by blast
      have h: "harvested L web (crawler (step L web P (Get w)))"
        using hv unfolding harvested_def g(3,4) by simp
      have s: "store_fresh (crawler (step L web P (Get w)))"
        using sf unfolding store_fresh_def g(4,5) by simp
      from k l h s Get show ?thesis by simp
    qed
  next
    case (Complete w)
    from complete_step_cases[OF inv, of L web w]
    show ?thesis
    proof
      assume "step L web P (Complete w) = P"
      with Complete lk hv sf show ?thesis by simp
    next
      assume "\<exists>u c1 e. w < length (handlers P) \<and> handlers P ! w = AwaitDownload u
          \<and> crawl_page L (crawler P) u (web u) = (c1, e)
          \<and> step L web P (Complete w)
              = \<lparr>crawler = c1\<lparr>visited_urls := insert u (visited_urls c1),
                              urls_to_visit := (urls_to_visit c1)
                                \<lparr>unfinished_tasks := unfinished_tasks (urls_to_visit c1) - 1\<rparr>\<rparr>,
                 handlers = (handlers P)[w := AwaitGet]\<rparr>"
      then obtain u c1 e where w: "w < length (handlers P)" "handlers P ! w = AwaitDownload u"
        and cp: "crawl_page L (crawler P) u (web u) = (c1, e)"
        and st: "step L web P (Complete w)
              = \<lparr>crawler = c1\<lparr>visited_urls := insert u (visited_urls c1),
                              urls_to_visit := (urls_to_visit c1)
                                \<lparr>unfinished_tasks := unfinished_tasks (urls_to_visit c1) - 1\<rparr>\<rparr>,
                 handlers = (handlers P)[w := AwaitGet]\<rparr>"
        by blast
      let ?P' = "step L web P (Complete w)"
      have vis: "visited_urls c1 = visited_urls (crawler P)"
        using crawl_page_effect(1)[OF cp] .
      have sd: "set_data (urls_to_visit (crawler P)) \<subseteq> set_data (urls_to_visit c1)"
        using crawl_page_links(1)[OF cp] .
      have pre: "set (geo_locations (crawler P)) \<subseteq> set (geo_locations c1)"
        using crawl_page_effect(2)[OF cp] by (auto simp: prefix_def)
      have kept: "AwaitDownload v \<in> set ((handlers P)[w := AwaitGet])"
        if "AwaitDownload v \<in> set (handlers P)" "v \<noteq> u" for v
        using that w(2) by (intro in_flight_kept) simp_all
      have k: "known P \<subseteq> known ?P'"
        unfolding known_def st using sd vis kept by auto
      have l: "links_known L web ?P'"
        unfolding links_known_def
      proof (intro ballI allI impI)
        fix v soup assume v: "v \<in> visited_urls (crawler ?P')" and ws: "web v = Inr soup"
        show "set (fst (get_linked_urls L v (find_all_a_href soup))) \<subseteq> known ?P'"
        proof (cases "v \<in> visited_urls (crawler P)")
          case True
          with lk ws have "set (fst (get_linked_urls L v (find_all_a_href soup))) \<subseteq> known P"
            unfolding links_known_def by blast
          with k show ?thesis by blast
        next
          case False
          with v vis have "v = u" unfolding st by simp
          with ws crawl_page_links(2)[OF cp, of soup]
          have "set (fst (get_linked_urls L v (find_all_a_href soup)))
              \<subseteq> set_data (urls_to_visit c1) \<union> visited_urls (crawler P)"
            by simp
          then show ?thesis unfolding known_def st using vis by auto
        qed
      qed
      have h: "harvested L web (crawler ?P')"
        unfolding harvested_def
      proof (intro ballI allI impI)
        fix v soup links
        assume v: "v \<in> visited_urls (crawler ?P')"
          and ws: "web v = Inr soup \<and> get_linked_urls L v (find_all_a_href soup) = (links, None)"
        show "\<exists>k. set (fst (get_geo_locations L (if links = [] then v else last links)
                        (find_all_li soup) k)) \<subseteq> set (geo_locations (crawler ?P'))"
        proof (cases "v = u")
          case True
          with ws crawl_page_store(2)[OF sf cp, of soup links]
          have "set (fst (get_geo_locations L (if links = [] then v else last links)
                     (find_all_li soup) (next_oid (crawler P)))) \<subseteq> set (geo_locations c1)"
            by (auto split: if_splits)
          then show ?thesis
            unfolding st by (intro exI[of _ "next_oid (crawler P)"]) simp
        next
          case False
          with v vis have "v \<in> visited_urls (crawler P)" unfolding st by simp
          with hv ws obtain k where
            "set (fst (get_geo_locations L (if links = [] then v else last links)
                        (find_all_li soup) k)) \<subseteq> set (geo_locations (crawler P))"
            unfolding harvested_def by blast
          with pre have "set (fst (get_geo_locations L (if links = [] then v else last links)
                        (find_all_li soup) k)) \<subseteq> set (geo_locations c1)"
            by blast
          then show ?thesis
            unfolding st by (intro exI[of _ k]) simp
        qed
      qed
      have s: "store_fresh (crawler ?P')"
        using crawl_page_store(1)[OF sf cp] unfolding st store_fresh_def by simp
      from k l h s Complete show ?thesis by simp
    qed
  qed
  then show ?thesis
    using inv' sk unfolding crawl_inv_def by blast
qed

lemma exec_crawl_inv: "crawl_inv L web seed P \<Longrightarrow> crawl_inv L web seed (exec L web P evs)"
  unfolding exec_def by (induction evs arbitrary: P) (simp_all add: step_crawl_inv)

lemma start_crawl_inv:
  "crawl_inv L web seed
     (start_pool (add_url_to_visit ((new_crawler start n)\<lparr>requested := r\<rparr>) seed))"
proof -
  have "filter downloading (replicate n AwaitGet) = []" by (induction n) simp_all
  then show ?thesis
    by (simp add: crawl_inv_def pool_inv_def known_def links_known_def harvested_def
        store_fresh_def start_pool_def add_url_to_visit_def new_crawler_def empty_queue_def
        contains_def put_def queue_ok_def)
qed

subsection \<open>When the queue is drained\<close>

lemma drain_exec:
  "drain L web P evs = Some P' \<Longrightarrow>
     \<exists>sched. prefix sched evs \<and> P' = exec L web P sched
       \<and> unfinished_tasks (urls_to_visit (crawler P')) = 0"
proof (induction evs arbitrary: P)
  case Nil
  then have "P' = P \<and> unfinished_tasks (urls_to_visit (crawler P')) = 0"
    by (auto split: if_splits)
  then have "prefix [] ([] :: event list) \<and> P' = exec L web P []
      \<and> unfinished_tasks (urls_to_visit (crawler P')) = 0"
    by (auto simp: exec_def)
  then show ?case by blast
next
  case (Cons ev evs)
  show ?case
  proof (cases "unfinished_tasks (urls_to_visit (crawler P)) = 0")
    case True
    with Cons.prems have "P' = P" by simp
    with True have "prefix [] (ev # evs) \<and> P' = exec L web P []
        \<and> unfinished_tasks (urls_to_visit (crawler P')) = 0"
      by (auto simp: exec_def)
    then show ?thesis by blast
  next
    case False
    with Cons.prems have "drain L web (step L web P ev) evs = Some P'" by simp
    from Cons.IH[OF this] obtain sched where s: "prefix sched evs"
        "P' = exec L web (step L web P ev) sched"
        "unfinished_tasks (urls_to_visit (crawler P')) = 0"
      by blast
    then have "prefix (ev # sched) (ev # evs) \<and> P' = exec L web P (ev # sched)
        \<and> unfinished_tasks (urls_to_visit (crawler P')) = 0"
      by (simp add: exec_def)
    then show ?thesis by blast
  qed
qed

lemma drained_pool:
  assumes "pool_inv P" "unfinished_tasks (urls_to_visit (crawler P)) = 0"
  shows "items (urls_to_visit (crawler P)) = []"
    and "set_data (urls_to_visit (crawler P)) = {}"
    and "\<forall>t \<in> set (handlers P). t = AwaitGet"
    and "known P = visited_urls (crawler P)"
proof -
  from assms have it: "items (urls_to_visit (crawler P)) = []"
    and fl: "filter downloading (handlers P) = []"
    and nf: "\<forall>t \<in> set (handlers P). \<not> failed t"
    and sd: "set_data (urls_to_visit (crawler P)) = set (items (urls_to_visit (crawler P)))"
    by (simp_all add: pool_inv_def queue_ok_def)
  show "items (urls_to_visit (crawler P)) = []" by (rule it)
  show e: "set_data (urls_to_visit (crawler P)) = {}" using sd it by simp
  have nd: "\<forall>t \<in> set (handlers P). \<not> downloading t"
    using fl by (simp add: filter_empty_conv)
  show a: "\<forall>t \<in> set (handlers P). t = AwaitGet"
  proof
    fix t assume t: "t \<in> set (handlers P)"
    with nd nf have "\<not> downloading t" "\<not> failed t" by simp_all
    then show "t = AwaitGet" by (cases t) simp_all
  qed
  have "{u. AwaitDownload u \<in> set (handlers P)} = {}" using a by auto
  with e show "known P = visited_urls (crawler P)" by (simp add: known_def)
qed

subsection \<open>The output\<close>

lemma location_handler_data:
  "k \<noteq> ''description'' \<Longrightarrow> data (location_handler L web g) k = data g k"
  by (auto simp: location_handler_def get_location_page_data_def map_add_def
      split: sum.splits bool.splits option.splits)

lemma build_geojson_names:
  assumes "\<forall>g \<in> set (geo_locations c). points g \<noteq> []"
  shows "map (\<lambda>f. properties f ''name'') (build_geojson (enrich L web c))
           = map (\<lambda>g. data g ''name'') (geo_locations c)"
proof -
  have "filter (\<lambda>g. points g \<noteq> []) (map (location_handler L web) (geo_locations c))
      = map (location_handler L web) (geo_locations c)"
    using assms by (simp add: filter_id_conv)
  then show ?thesis
    by (simp add: build_geojson_def enrich_def comp_def location_handler_data)
qed

lemma run_success:
  assumes "run L web evs c location_name = Some (Inr fs, c2)"
  shows "\<exists>found seed P.
      fst (find_location_in_page L web c (start_url c) location_name) = Inr (found, seed)
      \<and> drain L web
           (start_pool (add_url_to_visit (c\<lparr>requested := requested c @ [start_url c]\<rparr>) seed)) evs
          = Some P
      \<and> c2 = enrich L web (crawler P) \<and> fs = build_geojson c2"
proof -
  obtain r c1 where f: "find_location_in_page L web c (start_url c) location_name = (r, c1)"
    by (cases "find_location_in_page L web c (start_url c) location_name")
  then have c1: "c1 = c\<lparr>requested := requested c @ [start_url c]\<rparr>"
    by (auto simp: find_location_in_page_def download_html_def split: sum.splits)
  from assms f obtain found seed where r: "r = Inr (found, seed)"
    by (cases r) (auto simp: run_def)
  from assms f r obtain P where
    "drain L web (start_pool (add_url_to_visit c1 seed)) evs = Some P"
    "c2 = enrich L web (crawler P)" "fs = build_geojson c2"
    by (auto simp: run_def Let_def split: option.splits)
  with f r c1 show ?thesis by auto
qed

section \<open>Properties of the frontier queue\<close>

text \<open>
  C10. A URL put twice with no \<^verbatim>\<open>get\<close> in between is buffered twice and tracked once;
  the first \<^verbatim>\<open>get\<close> delivers it and empties the membership set, and the second
  \<^verbatim>\<open>get\<close> pops the other copy and raises \<^verbatim>\<open>KeyError\<close> on removing it from the set:
  \<^verbatim>\<open>get\<close> is not total over the states that \<^verbatim>\<open>put\<close> and \<^verbatim>\<open>get\<close> alone reach.
\<close>

theorem put_twice_get_raises:
  "items (put (put empty_queue u) u) = [u, u]
   \<and> set_data (put (put empty_queue u) u) = {u}
   \<and> fst (get (put (put empty_queue u) u)) = Returns u
   \<and> fst (get (snd (get (put (put empty_queue u) u)))) = Raises KeyError"
  by (simp add: put_def get_def empty_queue_def)

text \<open>
  C2. As stated the claim fails: \<^verbatim>\<open>put\<close> of a URL that is already pending leaves the
  membership set as it is but appends the URL to the buffer once more. A consumer that
  calls \<^verbatim>\<open>get\<close> twice is then handed \<open>a\<close> and a \<^verbatim>\<open>KeyError\<close> where, without the
  call, it is handed \<open>a\<close> and \<open>b\<close>. The consumer of the program is \<^verbatim>\<open>url_handler\<close>,
  which calls \<^verbatim>\<open>get\<close> outside its \<^verbatim>\<open>try\<close>: with one worker the handler ends at the
  \<^verbatim>\<open>KeyError\<close> and \<open>b\<close> is never delivered (\<open>failed_handler_stays\<close>), where without
  the call the worker goes on to download \<open>b\<close>.
\<close>

theorem put_pending_not_noop:
  "''a'' \<in> set_data (put empty_queue ''a'')
   \<and> gets 2 (put (put (put empty_queue ''a'') ''a'') ''b'') = [Returns ''a'', Raises KeyError]
   \<and> gets 2 (put (put empty_queue ''a'') ''b'') = [Returns ''a'', Returns ''b'']
   \<and> handlers (exec py down_site
        \<lparr>crawler = (new_crawler WIKIMAPIA_START_URL 1)
           \<lparr>urls_to_visit := put (put (put empty_queue ''a'') ''a'') ''b''\<rparr>,
         handlers = [AwaitGet]\<rparr> [Get 0, Complete 0, Get 0]) = [Failed KeyError]
   \<and> handlers (exec py down_site
        \<lparr>crawler = (new_crawler WIKIMAPIA_START_URL 1)
           \<lparr>urls_to_visit := put (put empty_queue ''a'') ''b''\<rparr>,
         handlers = [AwaitGet]\<rparr> [Get 0, Complete 0, Get 0]) = [AwaitDownload ''b'']"
  by (simp add: eval_defs down_site_def numeral_2_eq_2)

text \<open>
  C2, amended. \<^verbatim>\<open>put(url)\<close> on a pending URL leaves the membership set unchanged,
  buffers the URL once more and counts one more unfinished task; the no-op belongs to
  the caller: \<^verbatim>\<open>add_url_to_visit(url)\<close> changes nothing when the URL is pending or
  visited.
\<close>

theorem put_pending_amended:
  "(u \<in> set_data q \<longrightarrow>
      set_data (put q u) = set_data q \<and> items (put q u) = items q @ [u]
      \<and> unfinished_tasks (put q u) = Suc (unfinished_tasks q))
   \<and> (contains (urls_to_visit c) u \<or> u \<in> visited_urls c \<longrightarrow> add_url_to_visit c u = c)"
  by (auto simp: put_def add_url_to_visit_def)

theorem put_pending_amended_witness:
  "''a'' \<in> set_data (put empty_queue ''a'')
   \<and> set_data (put (put empty_queue ''a'') ''a'') = set_data (put empty_queue ''a'')
   \<and> items (put (put empty_queue ''a'') ''a'') = items (put empty_queue ''a'') @ [''a'']
   \<and> contains (urls_to_visit (add_url_to_visit (new_crawler ''s'' 1 :: real WikimapiaCrawler) ''a'')) ''a''
   \<and> add_url_to_visit (add_url_to_visit (new_crawler ''s'' 1 :: real WikimapiaCrawler) ''a'') ''a''
       = add_url_to_visit (new_crawler ''s'' 1) ''a''"
proof -
  have h1: "''a'' \<in> set_data (put empty_queue ''a'')" by (simp add: put_def)
  have h2: "contains (urls_to_visit (add_url_to_visit (new_crawler ''s'' 1 :: real WikimapiaCrawler) ''a'')) ''a''"
    by (simp add: add_url_to_visit_def new_crawler_def contains_def put_def empty_queue_def)
  show ?thesis
    using put_pending_amended[of "''a''" "put empty_queue ''a''"
        "add_url_to_visit (new_crawler ''s'' 1 :: real WikimapiaCrawler) ''a''"] h1 h2
    by simp
qed

section \<open>Coordinate parsing\<close>

text \<open>
  C3. The docstring's target gives the point (lon = -170.649948, lat = -14.260057), and
  the same target without \<^verbatim>\<open>lon\<close> gives no point. The target is rewritten by dropping
  what stands before its first \<^verbatim>\<open>lat\<close> and putting \<^verbatim>\<open>?\<close> there (the pattern's \<^verbatim>\<open>.\<close>
  does not cross a line break, so this is for a target with none before that
  \<^verbatim>\<open>lat\<close>); the query of the result is parsed, and a name with one value gets that value
  as a string. A point is produced only if \<^verbatim>\<open>lat\<close> and \<^verbatim>\<open>lon\<close> are both there with one
  value each and \<^verbatim>\<open>float\<close> accepts both, and its coordinates are those two floats.
  \<^verbatim>\<open>get_point_from_map_url\<close> has no exceptional result, and when it gives no point the
  location scan passes over the pair without a location and without an exception.
\<close>

theorem map_url_coordinates:
  "get_point_from_map_url py n (Some ''/#lang=en&lat=-14.260057&lon=-170.649948&z=13&m=w'')
     = Some \<lparr>oid = n, lon = - 170.649948, lat = - 14.260057\<rparr>
   \<and> get_point_from_map_url py n (Some ''/#lang=en&lat=-14.260057&z=13&m=w'') = None
   \<and> (CHR 0x0A \<notin> set a \<and> \<not> sublist ''lat'' (a @ ''la'')
        \<longrightarrow> re_sub_lat (a @ ''lat'' @ b) = ''?lat'' @ b)
   \<and> (urlparse L (re_sub_lat s) = Inr parsed \<and> parse_qs L (query parsed) = Inr ps
        \<longrightarrow> (\<exists>fl. get_params_from_map_url L (Some s) = Inr fl
              \<and> (\<forall>v. ps k = Some [v] \<longrightarrow> fl k = Some (Str v))
              \<and> (ps k = None \<longrightarrow> fl k = None)))
   \<and> (get_point_from_map_url L i m = Some p
        \<longrightarrow> (\<exists>fl la lo. get_params_from_map_url L m = Inr fl
              \<and> fl ''lat'' = Some (Str la) \<and> fl ''lon'' = Some (Str lo)
              \<and> float L la = Inr (lat p) \<and> float L lo = Inr (lon p)))
   \<and> (urljoin_href L u (href (a_tags ! 0)) = Inr full
        \<and> get_point_from_map_url L j (href (a_tags ! 1)) = None
        \<longrightarrow> get_geo_locations L u (a_tags # li_tags) j = get_geo_locations L u li_tags j)"
proof -
  have c3: "CHR 0x0A \<notin> set a \<and> \<not> sublist ''lat'' (a @ ''la'')
        \<longrightarrow> re_sub_lat (a @ ''lat'' @ b) = ''?lat'' @ b"
  proof (intro impI, elim conjE)
    assume "CHR 0x0A \<notin> set a" "\<not> sublist ''lat'' (a @ ''la'')"
    then have "after_lat (a @ ''lat'' @ b) = Some b" by (rule after_lat_first)
    then show "re_sub_lat (a @ ''lat'' @ b) = ''?lat'' @ b"
      unfolding re_sub_lat_def by (simp only: option.case)
  qed
  have c4: "urlparse L (re_sub_lat s) = Inr parsed \<and> parse_qs L (query parsed) = Inr ps
        \<longrightarrow> (\<exists>fl. get_params_from_map_url L (Some s) = Inr fl
              \<and> (\<forall>v. ps k = Some [v] \<longrightarrow> fl k = Some (Str v))
              \<and> (ps k = None \<longrightarrow> fl k = None))"
    by (simp add: get_params_from_map_url_def flatten_param_def)
  have c5: "get_point_from_map_url L i m = Some p
        \<longrightarrow> (\<exists>fl la lo. get_params_from_map_url L m = Inr fl
              \<and> fl ''lat'' = Some (Str la) \<and> fl ''lon'' = Some (Str lo)
              \<and> float L la = Inr (lat p) \<and> float L lo = Inr (lon p))"
    using point_only_if[of L i m p] by blast
  have c6: "urljoin_href L u (href (a_tags ! 0)) = Inr full
        \<and> get_point_from_map_url L j (href (a_tags ! 1)) = None
        \<longrightarrow> get_geo_locations L u (a_tags # li_tags) j = get_geo_locations L u li_tags j"
    by simp
  show ?thesis
    using example_point[of n] missing_point[of n] c3 c4 c5 c6 by blast
qed

theorem map_url_coordinates_witness:
  "CHR 0x0A \<notin> set ''/#'' \<and> \<not> sublist ''lat'' (''/#'' @ ''la'')
   \<and> re_sub_lat (''/#'' @ ''lat'' @ ''=1&lon=2'') = ''?lat'' @ ''=1&lon=2''
   \<and> urlparse py (re_sub_lat ''/#lang=en&lat=-14.260057&lon=-170.649948&z=13&m=w'')
       = Inr \<lparr>scheme = [], netloc = [], path = [], params = [],
               query = ''lat=-14.260057&lon=-170.649948&z=13&m=w'', fragment = []\<rparr>
   \<and> parse_qs py ''lat=-14.260057&lon=-170.649948&z=13&m=w''
       = Inr (py_parse_qs ''lat=-14.260057&lon=-170.649948&z=13&m=w'')
   \<and> py_parse_qs ''lat=-14.260057&lon=-170.649948&z=13&m=w'' ''lat'' = Some [''-14.260057'']
   \<and> (\<exists>fl. get_params_from_map_url py
               (Some ''/#lang=en&lat=-14.260057&lon=-170.649948&z=13&m=w'') = Inr fl
          \<and> fl ''lat'' = Some (Str ''-14.260057''))
   \<and> get_point_from_map_url py 0 (Some ''/#lang=en&lat=-14.260057&lon=-170.649948&z=13&m=w'')
       = Some \<lparr>oid = 0, lon = - 170.649948, lat = - 14.260057\<rparr>
   \<and> (\<exists>fl la lo. get_params_from_map_url py
               (Some ''/#lang=en&lat=-14.260057&lon=-170.649948&z=13&m=w'') = Inr fl
          \<and> fl ''lat'' = Some (Str la) \<and> fl ''lon'' = Some (Str lo)
          \<and> float py la = Inr (- 14.260057) \<and> float py lo = Inr (- 170.649948))
   \<and> urljoin_href py ''http://h/'' None = Inr ''http://h/''
   \<and> get_point_from_map_url py 0 (Some ''/#lang=en&lat=-14.260057&z=13&m=w'') = None
   \<and> get_geo_locations py ''http://h/''
         ([\<lparr>tag_text = ''Arad'', href = None\<rparr>,
           \<lparr>tag_text = ''map'', href = Some ''/#lang=en&lat=-14.260057&z=13&m=w''\<rparr>] # []) 0
       = get_geo_locations py ''http://h/'' [] 0"
proof -
  let ?ex = "''/#lang=en&lat=-14.260057&lon=-170.649948&z=13&m=w''"
  let ?q = "''lat=-14.260057&lon=-170.649948&z=13&m=w''"
  let ?as = "[\<lparr>tag_text = ''Arad'', href = None\<rparr>,
           \<lparr>tag_text = ''map'', href = Some ''/#lang=en&lat=-14.260057&z=13&m=w''\<rparr>]"
  have h1: "CHR 0x0A \<notin> set ''/#''" by simp
  have h2: "\<not> sublist ''lat'' (''/#'' @ ''la'')" by (simp add: sublist_Cons_right)
  have h3: "urlparse py (re_sub_lat ?ex)
       = Inr \<lparr>scheme = [], netloc = [], path = [], params = [], query = ?q, fragment = []\<rparr>"
    by (simp only: example_legal_url example_query)
  have h4: "parse_qs py ?q = Inr (py_parse_qs ?q)" by (simp add: py_def)
  have h5: "urljoin_href py ''http://h/'' (href (?as ! 0)) = Inr ''http://h/''"
    by (simp add: urljoin_href_def)
  have h6: "get_point_from_map_url py 0 (href (?as ! 1)) = None"
    by (simp add: missing_point)
  note T = map_url_coordinates[of 0 "''/#''" "''=1&lon=2''" py ?ex
      "\<lparr>scheme = [], netloc = [], path = [], params = [], query = ?q, fragment = []\<rparr>"
      "py_parse_qs ?q" "''lat''" 0 "Some ?ex"
      "\<lparr>oid = 0, lon = - 170.649948, lat = - 14.260057\<rparr>"
      "''http://h/''" ?as "''http://h/''" 0 "[]"]
  show ?thesis
    using T h1 h2 h3 h4 h5 h6 example_lat_lon(1) by (simp add: urljoin_href_def)
qed

section \<open>Enrichment\<close>

text \<open>
  C9. \<^verbatim>\<open>location_handler\<close> leaves a location whose URL has a path starting with
  \<^verbatim>\<open>/country/\<close> as it is (the prefix is fixed in \<^verbatim>\<open>can_be_location_page_url\<close>). For any
  other location whose page is fetched, the data found on the page are merged into the
  metadata, a key of the page winning over the same key of the location; the page gives
  \<^verbatim>\<open>description\<close> when it has a non-empty description and nothing otherwise. When the
  fetch fails, or the page has no description or an empty one, the location is left as
  it is. The enrichment phase applies the handler to every location of the store.
\<close>

theorem enrichment_merge:
  "(\<forall>p. urlparse L (url loc) = Inr p \<and> prefix ''/country/'' (path p)
        \<longrightarrow> location_handler L web loc = loc)
   \<and> (\<forall>p soup. urlparse L (url loc) = Inr p \<and> \<not> prefix ''/country/'' (path p)
        \<and> web (url loc) = Inr soup
        \<longrightarrow> (\<exists>placeinfo. get_location_page_data (web (url loc)) = Inr placeinfo
              \<and> location_handler L web loc = loc\<lparr>data := data loc ++ placeinfo\<rparr>
              \<and> (\<forall>k. data (location_handler L web loc) k
                     = (case placeinfo k of Some v \<Rightarrow> Some v | None \<Rightarrow> data loc k))
              \<and> placeinfo = (case place_description soup of
                               None \<Rightarrow> Map.empty
                             | Some t \<Rightarrow> if t \<noteq> [] then [''description'' \<mapsto> t] else Map.empty)))
   \<and> (\<forall>e. web (url loc) = Inl e \<longrightarrow> location_handler L web loc = loc)
   \<and> (\<forall>soup. web (url loc) = Inr soup
        \<and> (place_description soup = None \<or> place_description soup = Some [])
        \<longrightarrow> location_handler L web loc = loc)
   \<and> geo_locations (enrich L web c) = map (location_handler L web) (geo_locations c)"
  by (auto simp: location_handler_def can_be_location_page_url_def get_location_page_data_def
        enrich_def map_add_def
      split: sum.splits bool.splits option.splits)

theorem enrichment_merge_witness:
  "urlparse py ''https://wikimapia.org/country/Israel/''
       = Inr \<lparr>scheme = ''https'', netloc = ''wikimapia.org'', path = ''/country/Israel/'',
               params = [], query = [], fragment = []\<rparr>
   \<and> prefix ''/country/'' ''/country/Israel/''
   \<and> location_handler py described_site \<lparr>url = israel, points = [], data = [''name'' \<mapsto> ''Israel'']\<rparr>
       = \<lparr>url = israel, points = [], data = [''name'' \<mapsto> ''Israel'']\<rparr>
   \<and> \<not> prefix ''/country/'' ''/15002/Arad-Israel''
   \<and> data (location_handler py described_site
        \<lparr>url = arad, points = [], data = [''name'' \<mapsto> ''Arad'', ''description'' \<mapsto> ''old'']\<rparr>)
        ''description'' = Some ''A city in the Negev''
   \<and> data (location_handler py described_site
        \<lparr>url = arad, points = [], data = [''name'' \<mapsto> ''Arad'', ''description'' \<mapsto> ''old'']\<rparr>)
        ''name'' = Some ''Arad''
   \<and> down_site arad = Inl (RequestError ''timeout'')
   \<and> location_handler py down_site \<lparr>url = arad, points = [], data = [''name'' \<mapsto> ''Arad'']\<rparr>
       = \<lparr>url = arad, points = [], data = [''name'' \<mapsto> ''Arad'']\<rparr>"
proof -
  let ?isr = "\<lparr>url = israel, points = [] :: real GeoPoint list, data = [''name'' \<mapsto> ''Israel'']\<rparr>"
  let ?old = "\<lparr>url = arad, points = [] :: real GeoPoint list,
               data = [''name'' \<mapsto> ''Arad'', ''description'' \<mapsto> ''old'']\<rparr>"
  let ?ar = "\<lparr>url = arad, points = [] :: real GeoPoint list, data = [''name'' \<mapsto> ''Arad'']\<rparr>"
  have p1: "prefix ''/country/'' ''/country/Israel/''" by simp
  have p2: "\<not> prefix ''/country/'' ''/15002/Arad-Israel''" by simp
  have d: "described_site arad = Inr (no_page\<lparr>place_description := Some ''A city in the Negev''\<rparr>)"
    by (simp add: described_site_def)
  have dn: "down_site arad = Inl (RequestError ''timeout'')" by (simp add: down_site_def)
  note A = enrichment_merge[of py ?isr described_site]
  note B = enrichment_merge[of py ?old described_site]
  note C = enrichment_merge[of py ?ar down_site]
  have a: "location_handler py described_site ?isr = ?isr"
    using A parse_israel p1 by simp
  have b: "data (location_handler py described_site ?old) ''description'' = Some ''A city in the Negev''"
          "data (location_handler py described_site ?old) ''name'' = Some ''Arad''"
    using B parse_arad p2 d by (simp_all add: get_location_page_data_def no_page_def)
  have c: "location_handler py down_site ?ar = ?ar"
    using C dn by simp
  show ?thesis using a b c p1 p2 dn parse_israel[unfolded israel_def] by simp
qed

section \<open>The search for the start page's link\<close>

text \<open>
  C8. As stated the claim fails: the test of \<^verbatim>\<open>find_location_in_page\<close> is
  \<^verbatim>\<open>a_tag['href'] and caseless_equal(...)\<close>, so an anchor whose text equals the search
  name but whose target is empty is passed over. On a start page whose navigation list
  holds only such an anchor for \<open>Arad\<close>, \<^verbatim>\<open>run\<close> raises \<^verbatim>\<open>NotFoundError\<close> although an
  anchor compares caselessly equal to the search name.
\<close>

theorem run_NotFound_counterexample:
  "empty_href_site WIKIMAPIA_START_URL
     = Inr (no_page\<lparr>find_all_a_href := [[]],
                    select_linkslist_a := [\<lparr>tag_text = ''Arad'', href = Some []\<rparr>]\<rparr>)
   \<and> caseless_equal py ''Arad'' ''Arad''
   \<and> run py empty_href_site [] (new_crawler WIKIMAPIA_START_URL 1) ''Arad''
       = Some (Inl NotFoundError,
               (new_crawler WIKIMAPIA_START_URL 1)\<lparr>requested := [WIKIMAPIA_START_URL]\<rparr>)"
  by (simp add: empty_href_site_def caseless_equal_def run_def find_location_in_page_def
        download_html_def new_crawler_def no_page_def)

text \<open>
  C8, amended. \<^verbatim>\<open>run\<close> raises \<^verbatim>\<open>NotFoundError\<close> if and only if the start page is
  fetched, every anchor of its navigation list has a target, and no anchor with a
  non-empty target compares caselessly equal to the search name. It is then terminal:
  \<^verbatim>\<open>run\<close> has no other result, and the crawler is as it was but for the request of the
  start page (nothing enqueued, visited, stored or requested further).
\<close>

theorem run_NotFound_amended:
  "((\<exists>c'. run L web evs c location_name = Some (Inl NotFoundError, c')) \<longleftrightarrow>
      (\<exists>soup. web (start_url c) = Inr soup
         \<and> (\<forall>a \<in> set (select_linkslist_a soup). \<exists>h. href a = Some h
               \<and> \<not> (h \<noteq> [] \<and> caseless_equal L (tag_text a) location_name))))
   \<and> (run L web evs c location_name = Some (Inl NotFoundError, c') \<longrightarrow>
        c' = c\<lparr>requested := requested c @ [start_url c]\<rparr>)"
proof -
  have a: "find_location_in_page L web c (start_url c) location_name = (Inl NotFoundError, c1) \<longleftrightarrow>
      (\<exists>soup. web (start_url c) = Inr soup
         \<and> find_a_tag L (start_url c) location_name (select_linkslist_a soup) = Inl NotFoundError)
      \<and> c1 = c\<lparr>requested := requested c @ [start_url c]\<rparr>" for c1
    by (auto simp: find_location_in_page_def download_html_def split: sum.splits)
  have b: "run L web evs c location_name = Some (Inl NotFoundError, c1) \<longleftrightarrow>
      find_location_in_page L web c (start_url c) location_name = (Inl NotFoundError, c1)" for c1
    by (auto simp: run_def Let_def split: prod.splits sum.splits option.splits)
  show ?thesis
    unfolding b a find_a_tag_NotFound by auto
qed

theorem run_NotFound_amended_witness:
  "haifa_site WIKIMAPIA_START_URL
     = Inr (no_page\<lparr>find_all_a_href := [''Haifa/''],
                    select_linkslist_a := [\<lparr>tag_text = ''Haifa'', href = Some ''Haifa/''\<rparr>]\<rparr>)
   \<and> \<not> caseless_equal py ''Haifa'' ''Arad''
   \<and> (\<exists>c'. run py haifa_site [] (new_crawler WIKIMAPIA_START_URL 1) ''Arad''
             = Some (Inl NotFoundError, c'))
   \<and> run py haifa_site [] (new_crawler WIKIMAPIA_START_URL 1) ''Arad''
       = Some (Inl NotFoundError,
               (new_crawler WIKIMAPIA_START_URL 1)\<lparr>requested := [WIKIMAPIA_START_URL]\<rparr>)"
proof -
  let ?c = "new_crawler WIKIMAPIA_START_URL 1 :: real WikimapiaCrawler"
  have s: "haifa_site (start_url ?c)
     = Inr (no_page\<lparr>find_all_a_href := [''Haifa/''],
                    select_linkslist_a := [\<lparr>tag_text = ''Haifa'', href = Some ''Haifa/''\<rparr>]\<rparr>)"
    by (simp add: haifa_site_def)
  have n: "\<not> caseless_equal py ''Haifa'' ''Arad''"
    by (simp add: caseless_equal_def normalize_caseless_def py_def lower_def
          ascii_uppercase_def ascii_lowercase_def)
  have ex: "\<exists>c'. run py haifa_site [] ?c ''Arad'' = Some (Inl NotFoundError, c')"
    using run_NotFound_amended[of py haifa_site "[]" ?c "''Arad''"] s n by simp
  then obtain c' where c': "run py haifa_site [] ?c ''Arad'' = Some (Inl NotFoundError, c')" ..
  then have "c' = ?c\<lparr>requested := requested ?c @ [start_url ?c]\<rparr>"
    using run_NotFound_amended[of py haifa_site "[]" ?c "''Arad''" c'] by simp
  then have "c' = ?c\<lparr>requested := [WIKIMAPIA_START_URL]\<rparr>"
    by (simp add: new_crawler_def)
  with c' ex s n show ?thesis by (simp add: haifa_site_def)
qed

section \<open>The location store\<close>

text \<open>
  C1. \<^verbatim>\<open>add_geo_location\<close> appends a location unless
  \<^verbatim>\<open>geo_location not in self.geo_locations\<close> fails, and that test compares with
  \<^verbatim>\<open>==\<close>. \<^verbatim>\<open>GeoLocation\<close> is a dataclass, but its points are \<^verbatim>\<open>GeoPoint\<close> objects,
  a class with no \<^verbatim>\<open>__eq__\<close>, and every extraction makes new ones: a location extracted
  again is never equal to the one in the store. Crawling the same page twice, a page with
  one pair, leaves two locations with the same URL (and the same name) in the store.
\<close>

theorem reextraction_stores_twice:
  "one_pair_site israel
     = Inr (no_page\<lparr>find_all_a_href := [arad, map_href],
                    find_all_li := [[\<lparr>tag_text = ''Arad'', href = Some arad\<rparr>, map_anchor]]\<rparr>)
   \<and> map url (geo_locations (fst (crawl py one_pair_site
         (fst (crawl py one_pair_site (new_crawler WIKIMAPIA_START_URL 1) israel)) israel)))
       = [arad, arad]
   \<and> data (geo_locations (fst (crawl py one_pair_site
         (fst (crawl py one_pair_site (new_crawler WIKIMAPIA_START_URL 1) israel)) israel)) ! 0)
         ''name'' = Some ''Arad''
   \<and> data (geo_locations (fst (crawl py one_pair_site
         (fst (crawl py one_pair_site (new_crawler WIKIMAPIA_START_URL 1) israel)) israel)) ! 1)
         ''name'' = Some ''Arad''"
  unfolding crawl_one_pair_twice by (simp add: one_pair_site_def)

section \<open>The link scan\<close>

text \<open>
  C4. \<^verbatim>\<open>is_base_url\<close> compares the paths with \<^verbatim>\<open>startswith\<close>, character by character,
  not segment by segment. The page \<^verbatim>\<open>/country/Niger\<close> has a link to
  \<^verbatim>\<open>/country/Nigeria/\<close>; the authorities are equal and the one path starts with the
  other, so the link scan yields it, although it is a sibling of the page and not below
  it.
\<close>

theorem sibling_link_yielded:
  "get_linked_urls py ''https://wikimapia.org/country/Niger'' [''/country/Nigeria/'']
     = ([''https://wikimapia.org/country/Nigeria/''], None)
   \<and> urlparse py ''https://wikimapia.org/country/Niger''
       = Inr \<lparr>scheme = ''https'', netloc = ''wikimapia.org'', path = ''/country/Niger'',
               params = [], query = [], fragment = []\<rparr>
   \<and> urlparse py ''https://wikimapia.org/country/Nigeria/''
       = Inr \<lparr>scheme = ''https'', netloc = ''wikimapia.org'', path = ''/country/Nigeria/'',
               params = [], query = [], fragment = []\<rparr>"
  by (simp add: join_Niger is_base_url_def parse_Niger parse_Nigeria)

section \<open>The crawl\<close>

text \<open>
  C6. The loop \<^verbatim>\<open>for url in self.get_linked_urls(url, soup)\<close> of \<^verbatim>\<open>crawl\<close> assigns to
  the parameter \<^verbatim>\<open>url\<close>, so the location scan gets the last link yielded as its base,
  not the URL of the page. On the page of \<open>israel\<close> with one pair whose link is
  \<^verbatim>\<open>Arad/\<close>, that link is in scope and is the last one yielded; the location's URL is
  the join of it with \<^verbatim>\<open>Arad/\<close>, where the join of the page's URL with \<^verbatim>\<open>Arad/\<close> is
  expected.
\<close>

theorem location_joined_with_last_link:
  "relative_site israel
     = Inr (no_page\<lparr>find_all_a_href := [''Arad/'', map_href],
                    find_all_li := [[\<lparr>tag_text = ''Arad'', href = Some ''Arad/''\<rparr>, map_anchor]]\<rparr>)
   \<and> urljoin py israel ''Arad/'' = Inr ''https://wikimapia.org/country/Israel/Arad/''
   \<and> map url (geo_locations (fst (crawl py relative_site (new_crawler WIKIMAPIA_START_URL 1) israel)))
       = [''https://wikimapia.org/country/Israel/Arad/Arad/'']"
  unfolding crawl_relative join_israel_Arad by (simp add: relative_site_def)

text \<open>
  C5. \<^verbatim>\<open>add_url_to_visit\<close> looks at the visited set and at the pending set, and a URL
  that a worker has dequeued and not yet finished is in neither. With one worker and a
  seed page that links to a child page and to itself: the worker dequeues the seed,
  enqueues the child and the seed again, marks the seed visited and starts the download
  of the child. At that suspension the seed is pending and visited at once. It is then
  crawled a second time (requested twice, marked visited twice), and its location is
  stored twice.
\<close>

theorem pending_and_visited:
  "handlers (exec py self_link_site
       (start_pool (add_url_to_visit (new_crawler WIKIMAPIA_START_URL 1) israel))
       [Get 0, Complete 0, Get 0])
     = [AwaitDownload ''https://wikimapia.org/country/Israel/Negev/'']
   \<and> israel \<in> set_data (urls_to_visit (crawler (exec py self_link_site
       (start_pool (add_url_to_visit (new_crawler WIKIMAPIA_START_URL 1) israel))
       [Get 0, Complete 0, Get 0])))
   \<and> israel \<in> visited_urls (crawler (exec py self_link_site
       (start_pool (add_url_to_visit (new_crawler WIKIMAPIA_START_URL 1) israel))
       [Get 0, Complete 0, Get 0]))
   \<and> requested (crawler (exec py self_link_site
       (start_pool (add_url_to_visit (new_crawler WIKIMAPIA_START_URL 1) israel))
       [Get 0, Complete 0, Get 0, Complete 0, Get 0, Complete 0]))
     = [israel, ''https://wikimapia.org/country/Israel/Negev/'', israel]
   \<and> map url (geo_locations (crawler (exec py self_link_site
       (start_pool (add_url_to_visit (new_crawler WIKIMAPIA_START_URL 1) israel))
       [Get 0, Complete 0, Get 0, Complete 0, Get 0, Complete 0])))
     = [arad, arad]"
  unfolding self_link_3 self_link_6 by simp

section \<open>The workers\<close>



end
